theory Spec2Isabelle
  imports Main "HOL-Library.AList"
begin

text \<open>
  The protocol bridge of a debug adapter for the Firefox remote debugging protocol: the
  actor registry of \<^verbatim>\<open>DebugConnection\<close>, the object grip adapters that a
  \<^verbatim>\<open>ThreadAdapter\<close> keeps and releases, and the variables that
  \<^verbatim>\<open>VariableAdapter.fromGrip\<close> makes of grips. The definitions follow the
  TypeScript source; an object that the source mutates is a record that a function takes
  and returns, a promise is the outcome it settles with, and the answers of the remote
  peer are parameters.
\<close>

section \<open>The JavaScript Map\<close>

text \<open>
  A JavaScript \<^verbatim>\<open>Map<K, V>\<close> keeps its entries in insertion order, one entry per key.
  It is modelled as an association list: \<^verbatim>\<open>set\<close> replaces the value of a key that
  is present where it stands and appends a new entry otherwise, \<^verbatim>\<open>delete\<close> removes the
  entry of the key, \<^verbatim>\<open>get\<close> answers \<open>None\<close> for \<^verbatim>\<open>undefined\<close>.
\<close>

type_synonym ('k, 'v) js_map = "('k \<times> 'v) list"

definition Map_get :: "('k, 'v) js_map \<Rightarrow> 'k \<Rightarrow> 'v option" where
  "Map_get m k = map_of m k"

definition Map_has :: "('k, 'v) js_map \<Rightarrow> 'k \<Rightarrow> bool" where
  "Map_has m k = (map_of m k \<noteq> None)"

definition Map_set :: "('k, 'v) js_map \<Rightarrow> 'k \<Rightarrow> 'v \<Rightarrow> ('k, 'v) js_map" where
  "Map_set m k v = AList.update k v m"

definition Map_delete :: "('k, 'v) js_map \<Rightarrow> 'k \<Rightarrow> ('k, 'v) js_map" where
  "Map_delete m k = AList.delete k m"

section \<open>DebugConnection: the actor registry\<close>

text \<open>
  An actor proxy is an object with a \<^verbatim>\<open>name\<close>; \<open>ident\<close> stands for the identity of
  the object, so that two proxies of one name can be told apart.
\<close>

record ActorProxy =
  name :: string
  ident :: nat

text \<open>A message of the remote peer: its \<^verbatim>\<open>from\<close> field and the rest of the packet.\<close>

record Response =
  response_from :: string
  response_body :: string

text \<open>What the message handler of the connection does with a message.\<close>

datatype connection_effect =
    Log_debug Response
  | ReceiveResponse ActorProxy Response
  | Log_error Response

record DebugConnection =
  actors :: "(string, ActorProxy) js_map"

text \<open>\<^verbatim>\<open>this.actors = new Map<string, ActorProxy>()\<close>\<close>

definition new_DebugConnection :: DebugConnection where
  "new_DebugConnection = \<lparr>actors = []\<rparr>"

text \<open>
  The handler of the transport's \<^verbatim>\<open>message\<close> event. \<open>isDebugEnabled\<close> is the
  answer of \<^verbatim>\<open>log.isDebugEnabled()\<close>.
\<close>

definition onMessage :: "bool \<Rightarrow> DebugConnection \<Rightarrow> Response \<Rightarrow> connection_effect list" where
  "onMessage isDebugEnabled c response =
     (if Map_has (actors c) (response_from response)
      then (if isDebugEnabled then [Log_debug response] else [])
           @ [ReceiveResponse (the (Map_get (actors c) (response_from response))) response]
      else [Log_error response])"

definition register :: "ActorProxy \<Rightarrow> DebugConnection \<Rightarrow> DebugConnection" where
  "register actor c = c\<lparr>actors := Map_set (actors c) (name actor) actor\<rparr>"

definition unregister :: "ActorProxy \<Rightarrow> DebugConnection \<Rightarrow> DebugConnection" where
  "unregister actor c = c\<lparr>actors := Map_delete (actors c) (name actor)\<rparr>"

text \<open>
  \<^verbatim>\<open>getOrCreate(actorName, createActor)\<close>. The factory is a closure that may itself
  change the connection (the constructor of a proxy may call \<^verbatim>\<open>register\<close>), so it
  takes the connection and returns the proxy with the connection it leaves.
\<close>

definition getOrCreate ::
  "string \<Rightarrow> (DebugConnection \<Rightarrow> ActorProxy \<times> DebugConnection) \<Rightarrow> DebugConnection
     \<Rightarrow> ActorProxy \<times> DebugConnection" where
  "getOrCreate actorName createActor c =
     (if Map_has (actors c) actorName
      then (the (Map_get (actors c) actorName), c)
      else createActor c)"

text \<open>Sequences of calls of \<^verbatim>\<open>register\<close> and \<^verbatim>\<open>unregister\<close>.\<close>

datatype registry_call = Register ActorProxy | Unregister ActorProxy

fun registry_step :: "registry_call \<Rightarrow> DebugConnection \<Rightarrow> DebugConnection" where
  "registry_step (Register a) c = register a c"
| "registry_step (Unregister a) c = unregister a c"

definition registry_run :: "registry_call list \<Rightarrow> DebugConnection \<Rightarrow> DebugConnection" where
  "registry_run calls c = fold registry_step calls c"

text \<open>The registry holds at most one entry under each name.\<close>

definition registry_unique :: "DebugConnection \<Rightarrow> bool" where
  "registry_unique c = distinct (map fst (actors c))"

text \<open>
  What a sequence of calls says of one name, read off the calls alone, the latest call
  first: the latest call that is about the name decides. After a \<^verbatim>\<open>register\<close> of a
  proxy of that name the name stands for that proxy, after an \<^verbatim>\<open>unregister\<close> of a
  proxy of that name it stands for none, and a name no call is about stands for none.
\<close>

fun latest_registration :: "string \<Rightarrow> registry_call list \<Rightarrow> ActorProxy option" where
  "latest_registration n [] = None"
| "latest_registration n (Register a # earlier) =
     (if name a = n then Some a else latest_registration n earlier)"
| "latest_registration n (Unregister a # earlier) =
     (if name a = n then None else latest_registration n earlier)"

definition last_registered :: "string \<Rightarrow> registry_call list \<Rightarrow> ActorProxy option" where
  "last_registered n calls = latest_registration n (rev calls)"

text \<open>What the message handler is to do with a message for a name that stands for \<open>p\<close>.\<close>

definition routed :: "bool \<Rightarrow> ActorProxy option \<Rightarrow> Response \<Rightarrow> connection_effect list" where
  "routed isDebugEnabled p response =
     (case p of
        None \<Rightarrow> [Log_error response]
      | Some proxy \<Rightarrow>
          (if isDebugEnabled then [Log_debug response] else [])
            @ [ReceiveResponse proxy response])"

section \<open>Grips\<close>

text \<open>
  A grip of the protocol is a boolean, a number, a string, or an object with a
  \<^verbatim>\<open>type\<close> field. The declarations of \<^verbatim>\<open>FirefoxDebugProtocol\<close> are not among the
  sources: the record below has the fields the code reads (\<^verbatim>\<open>type\<close>,
  \<^verbatim>\<open>initial\<close> of a long string, \<^verbatim>\<open>name\<close> of a symbol, \<^verbatim>\<open>class\<close> and
  \<^verbatim>\<open>actor\<close> of an object). A JavaScript number is a double; its type is left open
  as \<open>'n\<close>, and \<^verbatim>\<open>Number.prototype.toString\<close> is a parameter of the functions that
  render one.
\<close>

record ComplexGrip =
  grip_type :: string
  grip_initial :: string
  grip_name :: string
  grip_class :: string
  grip_actor :: string

datatype 'n Grip =
    BooleanGrip bool
  | NumberGrip 'n
  | StringGrip string
  | ObjectShapedGrip ComplexGrip

text \<open>\<^verbatim>\<open>Boolean.prototype.toString\<close>\<close>

definition boolean_toString :: "bool \<Rightarrow> string" where
  "boolean_toString b = (if b then ''true'' else ''false'')"

text \<open>
  The decimal rendering of an integer, which is what \<^verbatim>\<open>toString\<close> gives for a
  number that is an integer below \<open>10\<^sup>2\<^sup>1\<close> in absolute value.
\<close>

definition digit_char :: "nat \<Rightarrow> char" where
  "digit_char d = ''0123456789'' ! d"

fun nat_toString :: "nat \<Rightarrow> string" where
  "nat_toString n =
     (if n < 10 then [digit_char n] else nat_toString (n div 10) @ [digit_char (n mod 10)])"

declare nat_toString.simps [simp del]

definition int_toString :: "int \<Rightarrow> string" where
  "int_toString i = (if i < 0 then CHR ''-'' # nat_toString (nat (- i)) else nat_toString (nat i))"

section \<open>Object grip adapters\<close>

text \<open>A rejection of a promise: the error the remote peer answered with.\<close>

datatype error = Rejected string

text \<open>
  Modelled from the spec: the class \<^verbatim>\<open>ObjectGripAdapter\<close> is not among the sources.
  The spec gives an object grip proxy a remote actor name and a lifetime class
  (PauseLifetime or ThreadLifetime), and says that disposing one marks it disposed
  (locally unusable). The constructor takes the grip and the \<^verbatim>\<open>threadLifetime\<close> flag;
  \<open>actor_name\<close> is \<^verbatim>\<open>objectGripAdapter.actor.name\<close>.
\<close>

record ObjectGripAdapter =
  actor_name :: string
  isThreadLifetime :: bool
  disposed :: bool

definition new_ObjectGripAdapter :: "ComplexGrip \<Rightarrow> bool \<Rightarrow> ObjectGripAdapter" where
  "new_ObjectGripAdapter objectGrip threadLifetime =
     \<lparr>actor_name = grip_actor objectGrip, isThreadLifetime = threadLifetime, disposed = False\<rparr>"

section \<open>ThreadAdapter\<close>

text \<open>
  The calls a thread adapter makes on its collaborators, in the order it makes them:
  \<^verbatim>\<open>dispose()\<close> of an object grip adapter, a scope adapter or a frame adapter,
  the \<^verbatim>\<open>releaseMany\<close> and \<^verbatim>\<open>extendLifetime\<close> requests to the remote peer, and a
  warning of the log (with the grip's type; the JSON text of the grip is left out).
\<close>

datatype thread_effect =
    ObjectGripAdapter_dispose nat
  | ScopeAdapter_dispose nat
  | FrameAdapter_dispose nat
  | ReleaseMany "string list"
  | ExtendLifetime string
  | Log_warn string

text \<open>
  Adapters are objects, compared and shared by reference. \<open>heap\<close> is the store of the
  object grip adapters this thread adapter created: a reference is a position of the
  store, and a new adapter takes the next position. Frame and scope adapters (whose
  classes are not among the sources) are references only.
\<close>

record ThreadAdapter =
  heap :: "ObjectGripAdapter list"
  frames :: "nat list"
  scopes :: "nat list"
  objectGripAdaptersByActorName :: "(string, nat) js_map"
  pauseLifetimeObjects :: "nat list"
  effects :: "thread_effect list"

definition new_ThreadAdapter :: ThreadAdapter where
  "new_ThreadAdapter =
     \<lparr>heap = [], frames = [], scopes = [], objectGripAdaptersByActorName = [],
      pauseLifetimeObjects = [], effects = []\<rparr>"

definition emit :: "thread_effect \<Rightarrow> ThreadAdapter \<Rightarrow> ThreadAdapter" where
  "emit e t = t\<lparr>effects := effects t @ [e]\<rparr>"

definition getOrCreateObjectGripAdapter ::
  "ComplexGrip \<Rightarrow> bool \<Rightarrow> ThreadAdapter \<Rightarrow> nat \<times> ThreadAdapter" where
  "getOrCreateObjectGripAdapter objectGrip threadLifetime t =
     (case Map_get (objectGripAdaptersByActorName t) (grip_actor objectGrip) of
        Some objectGripAdapter \<Rightarrow> (objectGripAdapter, t)
      | None \<Rightarrow>
          (let objectGripAdapter = length (heap t);
               t1 = t\<lparr>heap := heap t @ [new_ObjectGripAdapter objectGrip threadLifetime]\<rparr>;
               t2 = t1\<lparr>objectGripAdaptersByActorName :=
                         Map_set (objectGripAdaptersByActorName t1) (grip_actor objectGrip)
                           objectGripAdapter\<rparr>;
               t3 = (if \<not> threadLifetime
                     then t2\<lparr>pauseLifetimeObjects := pauseLifetimeObjects t2 @ [objectGripAdapter]\<rparr>
                     else t2)
           in (objectGripAdapter, t3)))"

definition registerScopeAdapter :: "nat \<Rightarrow> ThreadAdapter \<Rightarrow> ThreadAdapter" where
  "registerScopeAdapter scopeAdapter t = t\<lparr>scopes := scopes t @ [scopeAdapter]\<rparr>"

text \<open>\<^verbatim>\<open>this.frames.push(frameAdapter)\<close>, as the action of \<^verbatim>\<open>fetchAllStackFrames\<close> does.\<close>

definition frames_push :: "nat \<Rightarrow> ThreadAdapter \<Rightarrow> ThreadAdapter" where
  "frames_push frameAdapter t = t\<lparr>frames := frames t @ [frameAdapter]\<rparr>"

text \<open>\<^verbatim>\<open>objectGripAdapter.dispose()\<close>: the adapter is marked disposed.\<close>

definition dispose_ObjectGripAdapter :: "nat \<Rightarrow> ThreadAdapter \<Rightarrow> ThreadAdapter" where
  "dispose_ObjectGripAdapter r t =
     emit (ObjectGripAdapter_dispose r) (t\<lparr>heap := (heap t)[r := (heap t ! r)\<lparr>disposed := True\<rparr>]\<rparr>)"

text \<open>The body of the first \<^verbatim>\<open>forEach\<close> of \<^verbatim>\<open>disposePauseLifetimeAdapters\<close>.\<close>

definition dispose_and_delete :: "nat \<Rightarrow> ThreadAdapter \<Rightarrow> ThreadAdapter" where
  "dispose_and_delete r t =
     (let t1 = dispose_ObjectGripAdapter r t
      in t1\<lparr>objectGripAdaptersByActorName :=
               Map_delete (objectGripAdaptersByActorName t1) (actor_name (heap t1 ! r))\<rparr>)"

text \<open>
  \<^verbatim>\<open>disposePauseLifetimeAdapters\<close>. \<open>releaseMany\<close> is the answer of the remote peer
  to the release request, should one be sent: \<open>Inl\<close> when the promise is rejected. The
  result is \<open>Inl\<close> when the promise the method returns is rejected.
\<close>

definition disposePauseLifetimeAdapters ::
  "error + unit \<Rightarrow> ThreadAdapter \<Rightarrow> error + ThreadAdapter" where
  "disposePauseLifetimeAdapters releaseMany t =
     (let objectGripActorsToRelease =
            map (\<lambda>objectGripAdapter. actor_name (heap t ! objectGripAdapter))
              (pauseLifetimeObjects t);
          t1 = fold dispose_and_delete (pauseLifetimeObjects t) t;
          t2 = t1\<lparr>pauseLifetimeObjects := []\<rparr>;
          t3 = fold (\<lambda>scopeAdapter. emit (ScopeAdapter_dispose scopeAdapter)) (scopes t2) t2;
          t4 = t3\<lparr>scopes := []\<rparr>;
          t5 = fold (\<lambda>frameAdapter. emit (FrameAdapter_dispose frameAdapter)) (frames t4) t4;
          t6 = t5\<lparr>frames := []\<rparr>
      in if length objectGripActorsToRelease > 0
         then (let t7 = emit (ReleaseMany objectGripActorsToRelease) t6
               in case releaseMany of Inl err \<Rightarrow> Inr t7 | Inr u \<Rightarrow> Inr t7)
         else Inr t6)"

text \<open>
  Sequences of calls on a thread adapter. The thread coordinator calls
  \<^verbatim>\<open>disposePauseLifetimeAdapters\<close> when the thread resumes; the call carries the
  answer of the remote peer to the release request. \<open>Emit\<close> stands for a request or
  a warning that another method of the thread adapter issues (the post-actions and
  \<^verbatim>\<open>fromGrip\<close> below), which changes nothing else.
\<close>

datatype thread_call =
    GetOrCreateObjectGripAdapter ComplexGrip bool
  | RegisterScopeAdapter nat
  | FramesPush nat
  | DisposePauseLifetimeAdapters "error + unit"
  | Emit thread_effect

fun thread_step :: "thread_call \<Rightarrow> ThreadAdapter \<Rightarrow> ThreadAdapter" where
  "thread_step (GetOrCreateObjectGripAdapter g b) t = snd (getOrCreateObjectGripAdapter g b t)"
| "thread_step (RegisterScopeAdapter s) t = registerScopeAdapter s t"
| "thread_step (FramesPush f) t = frames_push f t"
| "thread_step (DisposePauseLifetimeAdapters reply) t =
     (case disposePauseLifetimeAdapters reply t of Inl err \<Rightarrow> t | Inr t' \<Rightarrow> t')"
| "thread_step (Emit e) t = emit e t"

definition thread_run :: "thread_call list \<Rightarrow> ThreadAdapter \<Rightarrow> ThreadAdapter" where
  "thread_run calls t = fold thread_step calls t"

text \<open>
  The invariant of the grip index: every indexed adapter is in the store under its own
  name and not disposed; the index has one entry per name; the release list holds
  pause-lifetime adapters that are indexed, each once; an indexed pause-lifetime adapter
  is in the release list; and an adapter of the store that is not disposed is indexed.
\<close>

definition grip_invariant :: "ThreadAdapter \<Rightarrow> bool" where
  "grip_invariant t =
     (distinct (map fst (objectGripAdaptersByActorName t)) \<and>
      distinct (pauseLifetimeObjects t) \<and>
      (\<forall>(n, r) \<in> set (objectGripAdaptersByActorName t).
          r < length (heap t) \<and> actor_name (heap t ! r) = n \<and> \<not> disposed (heap t ! r) \<and>
          (\<not> isThreadLifetime (heap t ! r) \<longrightarrow> r \<in> set (pauseLifetimeObjects t))) \<and>
      (\<forall>r \<in> set (pauseLifetimeObjects t).
          r < length (heap t) \<and> \<not> isThreadLifetime (heap t ! r) \<and>
          (actor_name (heap t ! r), r) \<in> set (objectGripAdaptersByActorName t)) \<and>
      (\<forall>r < length (heap t).
          \<not> disposed (heap t ! r) \<longrightarrow>
          (actor_name (heap t ! r), r) \<in> set (objectGripAdaptersByActorName t)))"

text \<open>
  No two adapters of the store that are not disposed have the same remote actor name.
\<close>

definition live_adapters_unique :: "ThreadAdapter \<Rightarrow> bool" where
  "live_adapters_unique t =
     (\<forall>r1 < length (heap t). \<forall>r2 < length (heap t).
        \<not> disposed (heap t ! r1) \<and> \<not> disposed (heap t ! r2) \<and>
        actor_name (heap t ! r1) = actor_name (heap t ! r2) \<longrightarrow> r1 = r2)"

text \<open>The release requests among the calls a thread adapter made.\<close>

fun release_requests :: "thread_effect list \<Rightarrow> string list list" where
  "release_requests [] = []"
| "release_requests (ReleaseMany names # es) = names # release_requests es"
| "release_requests (e # es) = release_requests es"

section \<open>VariableAdapter\<close>

record VariableAdapter =
  varname :: string
  va_value :: string
  objectGripAdapter :: "nat option"

definition new_VariableAdapter :: "string \<Rightarrow> string \<Rightarrow> nat option \<Rightarrow> VariableAdapter" where
  "new_VariableAdapter vn v oga = \<lparr>varname = vn, va_value = v, objectGripAdapter = oga\<rparr>"

text \<open>
  The \<^verbatim>\<open>Variable\<close> of the host's debug adapter library, as \<^verbatim>\<open>getVariable\<close> builds
  it: a name, a displayed value and the third argument of the constructor, \<open>None\<close>
  for \<^verbatim>\<open>undefined\<close>. \<open>variablesProviderId\<close> gives the id the debug session assigned
  to an object grip adapter (the field is set by code that is not among the sources).
\<close>

record Variable =
  variable_name :: string
  variable_value :: string
  variablesReference :: "nat option"

definition getVariable :: "(nat \<Rightarrow> nat) \<Rightarrow> VariableAdapter \<Rightarrow> Variable" where
  "getVariable variablesProviderId va =
     \<lparr>variable_name = varname va, variable_value = va_value va,
      variablesReference =
        (case objectGripAdapter va of Some oga \<Rightarrow> Some (variablesProviderId oga) | None \<Rightarrow> None)\<rparr>"

definition double_quote :: char where
  "double_quote = CHR 0x22"

text \<open>
  \<^verbatim>\<open>VariableAdapter.fromGrip\<close>. The branches stand in the order of the source: the
  \<^verbatim>\<open>typeof\<close> tests, then the cases of the \<^verbatim>\<open>switch\<close> on the grip's type.
\<close>

definition fromGrip ::
  "('n \<Rightarrow> string) \<Rightarrow> string \<Rightarrow> 'n Grip \<Rightarrow> bool \<Rightarrow> ThreadAdapter
     \<Rightarrow> VariableAdapter \<times> ThreadAdapter" where
  "fromGrip number_toString vn grip threadLifetime threadAdapter =
     (case grip of
        BooleanGrip b \<Rightarrow> (new_VariableAdapter vn (boolean_toString b) None, threadAdapter)
      | NumberGrip n \<Rightarrow> (new_VariableAdapter vn (number_toString n) None, threadAdapter)
      | StringGrip s \<Rightarrow>
          (new_VariableAdapter vn ([double_quote] @ s @ [double_quote]) None, threadAdapter)
      | ObjectShapedGrip g \<Rightarrow>
          (if grip_type g = ''null'' \<or> grip_type g = ''undefined'' \<or> grip_type g = ''Infinity''
              \<or> grip_type g = ''-Infinity'' \<or> grip_type g = ''NaN'' \<or> grip_type g = ''-0''
           then (new_VariableAdapter vn (grip_type g) None, threadAdapter)
           else if grip_type g = ''longString''
           then (new_VariableAdapter vn (grip_initial g) None, threadAdapter)
           else if grip_type g = ''symbol''
           then (new_VariableAdapter vn (grip_name g) None, threadAdapter)
           else if grip_type g = ''object''
           then (let vartype = grip_class g;
                     (oga, t') = getOrCreateObjectGripAdapter g threadLifetime threadAdapter
                 in (new_VariableAdapter vn vartype (Some oga), t'))
           else (new_VariableAdapter vn (grip_type g) None,
                 emit (Log_warn (''Unexpected object grip of type '' @ grip_type g)) threadAdapter)))"

text \<open>\<^verbatim>\<open>ThreadAdapter.variableFromGrip\<close>: the grip may be \<^verbatim>\<open>undefined\<close>.\<close>

definition variableFromGrip ::
  "('n \<Rightarrow> string) \<Rightarrow> 'n Grip option \<Rightarrow> bool \<Rightarrow> ThreadAdapter \<Rightarrow> VariableAdapter \<times> ThreadAdapter" where
  "variableFromGrip number_toString grip threadLifetime t =
     (case grip of
        Some g \<Rightarrow> fromGrip number_toString [] g threadLifetime t
      | None \<Rightarrow> (new_VariableAdapter [] ''undefined'' None, t))"

section \<open>Requests that extend the lifetime of grips\<close>

text \<open>
  A promise that is settled is its outcome: \<open>Inl\<close> a rejection, \<open>Inr\<close> a value.
  \<open>catch_undefined\<close> is \<^verbatim>\<open>.catch((err) => undefined)\<close>; \<open>Promise_all\<close> is rejected
  with the first rejection of its list and fulfilled when there is none.
\<close>

definition catch_undefined :: "error + unit \<Rightarrow> error + unit" where
  "catch_undefined p = (case p of Inl err \<Rightarrow> Inr () | Inr u \<Rightarrow> Inr u)"

fun Promise_all :: "(error + 'a) list \<Rightarrow> error + 'a list" where
  "Promise_all [] = Inr []"
| "Promise_all (p # ps) =
     (case p of
        Inl err \<Rightarrow> Inl err
      | Inr x \<Rightarrow> (case Promise_all ps of Inl err \<Rightarrow> Inl err | Inr xs \<Rightarrow> Inr (x # xs)))"

text \<open>
  The post-action of \<^verbatim>\<open>fetchAllStackFrames\<close>. \<open>extendLifetime\<close> is the answer of the
  remote peer to the request for an actor, by the actor's name. A frame adapter (its
  class is not among the sources) is given by the object grip adapters that its
  \<^verbatim>\<open>getObjectGripAdapters()\<close> returns. The result is the outcome of the promise the
  post-action returns, with the thread adapter after the requests.
\<close>

definition fetchAllStackFrames_postAction ::
  "(string \<Rightarrow> error + unit) \<Rightarrow> nat list list \<Rightarrow> ThreadAdapter \<Rightarrow> (error + unit) \<times> ThreadAdapter" where
  "fetchAllStackFrames_postAction extendLifetime frameAdapters t =
     (let objectGripAdapters = concat frameAdapters;
          extendLifetimePromises =
            map (\<lambda>oga. catch_undefined (extendLifetime (actor_name (heap t ! oga))))
              objectGripAdapters;
          t1 = fold (\<lambda>oga. emit (ExtendLifetime (actor_name (heap t ! oga)))) objectGripAdapters t
      in (case Promise_all extendLifetimePromises of Inl err \<Rightarrow> Inl err | Inr us \<Rightarrow> Inr (), t1))"

text \<open>
  The post-action of \<^verbatim>\<open>fetchVariables\<close>; \<open>isThreadLifetime_provider\<close> is
  \<^verbatim>\<open>variablesProvider.isThreadLifetime\<close>.
\<close>

definition fetchVariables_postAction ::
  "(string \<Rightarrow> error + unit) \<Rightarrow> bool \<Rightarrow> VariableAdapter list \<Rightarrow> ThreadAdapter
     \<Rightarrow> (error + unit) \<times> ThreadAdapter" where
  "fetchVariables_postAction extendLifetime isThreadLifetime_provider variableAdapters t =
     (let objectGripAdapters = List.map_filter objectGripAdapter variableAdapters
      in if \<not> isThreadLifetime_provider
         then (let extendLifetimePromises =
                     map (\<lambda>oga. catch_undefined (extendLifetime (actor_name (heap t ! oga))))
                       objectGripAdapters;
                   t1 = fold (\<lambda>oga. emit (ExtendLifetime (actor_name (heap t ! oga))))
                          objectGripAdapters t
               in (case Promise_all extendLifetimePromises of
                     Inl err \<Rightarrow> Inl err | Inr us \<Rightarrow> Inr (), t1))
         else (Inr (), t))"

text \<open>The post-action of \<^verbatim>\<open>evaluate\<close>: the request is awaited with no handler.\<close>

definition evaluate_postAction ::
  "(string \<Rightarrow> error + unit) \<Rightarrow> VariableAdapter \<Rightarrow> ThreadAdapter \<Rightarrow> (error + unit) \<times> ThreadAdapter" where
  "evaluate_postAction extendLifetime variableAdapter t =
     (case objectGripAdapter variableAdapter of
        Some oga \<Rightarrow>
          (extendLifetime (actor_name (heap t ! oga)),
           emit (ExtendLifetime (actor_name (heap t ! oga))) t)
      | None \<Rightarrow> (Inr (), t))"

section \<open>Evaluation\<close>

text \<open>
  Modelled from the spec: \<^verbatim>\<open>ThreadCoordinator.evaluate\<close> and
  \<^verbatim>\<open>ThreadCoordinator.consoleEvaluate\<close> are not among the sources. The spec has the
  coordinator run the action and then the post-action before the result is released to
  the caller. \<open>remote\<close> is the answer of the remote peer to the evaluation request:
  a rejection, or a grip (\<open>None\<close> for \<^verbatim>\<open>undefined\<close>).
\<close>

definition ThreadCoordinator_evaluate ::
  "error + 'g \<Rightarrow> ('g \<Rightarrow> 's \<Rightarrow> 'a \<times> 's) \<Rightarrow> ('a \<Rightarrow> 's \<Rightarrow> (error + unit) \<times> 's) \<Rightarrow> 's
     \<Rightarrow> error + ('a \<times> 's)" where
  "ThreadCoordinator_evaluate remote convert postprocess s =
     (case remote of
        Inl err \<Rightarrow> Inl err
      | Inr grip \<Rightarrow>
          (let (result, s1) = convert grip s;
               (done, s2) = postprocess result s1
           in case done of Inl err \<Rightarrow> Inl err | Inr u \<Rightarrow> Inr (result, s2)))"

definition ThreadCoordinator_consoleEvaluate ::
  "error + 'g \<Rightarrow> ('g \<Rightarrow> 's \<Rightarrow> 'a \<times> 's) \<Rightarrow> 's \<Rightarrow> error + ('a \<times> 's)" where
  "ThreadCoordinator_consoleEvaluate remote convert s =
     (case remote of Inl err \<Rightarrow> Inl err | Inr grip \<Rightarrow> Inr (convert grip s))"

text \<open>
  \<^verbatim>\<open>ThreadAdapter.evaluate\<close>. \<open>remote_evaluate\<close> gives the answer of the remote peer
  for an expression and a frame actor name.
\<close>

definition evaluate ::
  "('n \<Rightarrow> string) \<Rightarrow> (nat \<Rightarrow> nat) \<Rightarrow> (string \<Rightarrow> string option \<Rightarrow> error + 'n Grip option)
     \<Rightarrow> (string \<Rightarrow> error + unit) \<Rightarrow> string \<Rightarrow> string option \<Rightarrow> ThreadAdapter
     \<Rightarrow> error + (Variable \<times> ThreadAdapter)" where
  "evaluate number_toString variablesProviderId remote_evaluate extendLifetime expr frameActorName t =
     (case
        (case frameActorName of
           Some f \<Rightarrow>
             ThreadCoordinator_evaluate (remote_evaluate expr frameActorName)
               (\<lambda>grip. variableFromGrip number_toString grip False)
               (evaluate_postAction extendLifetime) t
         | None \<Rightarrow>
             ThreadCoordinator_consoleEvaluate (remote_evaluate expr None)
               (\<lambda>grip. variableFromGrip number_toString grip True) t)
      of
        Inl err \<Rightarrow> Inl err
      | Inr (variableAdapter, t') \<Rightarrow> Inr (getVariable variablesProviderId variableAdapter, t'))"

section \<open>Interrupting and resuming a thread\<close>

text \<open>
  Modelled from the spec: the classes \<^verbatim>\<open>ThreadCoordinator\<close> and
  \<^verbatim>\<open>ThreadPauseCoordinator\<close>, to which \<^verbatim>\<open>ThreadAdapter.interrupt\<close> and
  \<^verbatim>\<open>ThreadAdapter.resume\<close> hand every call, are not among the sources. The spec gives
  a thread the states Running, Interrupting, Paused and Resuming. A caller that asks for
  a transition that is in flight awaits that operation and no second request is sent;
  an interrupt asked of a paused thread returns at once; an interrupt asked while a
  resume is in flight is queued until the resume completes; a resume asked of a thread
  that is not paused fails with a wrong-state condition; a request the remote peer
  rejects fails for its callers and the thread goes back to the last confirmed state.
  The reasons of a pause (auto, user request) play no part here and are left out.

  A caller is the number of its call. \<open>wire\<close> holds the requests sent to the remote
  peer, \<open>answered\<close> the requests the remote peer answered, \<open>settled\<close> the
  calls whose promise is settled, with the outcome, in the order they were settled.
\<close>

datatype ThreadState = Running | Interrupting | Paused | Resuming

datatype wire_message = Interrupt_request | Resume_request

datatype settlement = Fulfilled | Failed error

record ThreadCoordinator =
  threadState :: ThreadState
  interruptWaiters :: "nat list"
  resumeWaiters :: "nat list"
  queuedInterrupts :: "nat list"
  wire :: "wire_message list"
  answered :: "wire_message list"
  settled :: "(nat \<times> settlement) list"

definition new_ThreadCoordinator :: ThreadCoordinator where
  "new_ThreadCoordinator =
     \<lparr>threadState = Running, interruptWaiters = [], resumeWaiters = [], queuedInterrupts = [],
      wire = [], answered = [], settled = []\<rparr>"

definition settle :: "settlement \<Rightarrow> nat list \<Rightarrow> (nat \<times> settlement) list" where
  "settle outcome callers = map (\<lambda>caller. (caller, outcome)) callers"

text \<open>\<^verbatim>\<open>ThreadAdapter.interrupt()\<close>, that is \<^verbatim>\<open>this.coordinator.interrupt()\<close>.\<close>

definition interrupt :: "nat \<Rightarrow> ThreadCoordinator \<Rightarrow> ThreadCoordinator" where
  "interrupt caller c =
     (case threadState c of
        Paused \<Rightarrow> c\<lparr>settled := settled c @ [(caller, Fulfilled)]\<rparr>
      | Interrupting \<Rightarrow> c\<lparr>interruptWaiters := interruptWaiters c @ [caller]\<rparr>
      | Resuming \<Rightarrow> c\<lparr>queuedInterrupts := queuedInterrupts c @ [caller]\<rparr>
      | Running \<Rightarrow>
          c\<lparr>threadState := Interrupting,
            interruptWaiters := interruptWaiters c @ [caller],
            wire := wire c @ [Interrupt_request]\<rparr>)"

text \<open>\<^verbatim>\<open>ThreadAdapter.resume()\<close>, that is \<^verbatim>\<open>this.coordinator.resume()\<close>.\<close>

definition resume :: "nat \<Rightarrow> ThreadCoordinator \<Rightarrow> ThreadCoordinator" where
  "resume caller c =
     (case threadState c of
        Paused \<Rightarrow>
          c\<lparr>threadState := Resuming,
            resumeWaiters := resumeWaiters c @ [caller],
            wire := wire c @ [Resume_request]\<rparr>
      | Resuming \<Rightarrow> c\<lparr>resumeWaiters := resumeWaiters c @ [caller]\<rparr>
      | Running \<Rightarrow> c\<lparr>settled := settled c @ [(caller, Failed (Rejected ''wrongState''))]\<rparr>
      | Interrupting \<Rightarrow> c\<lparr>settled := settled c @ [(caller, Failed (Rejected ''wrongState''))]\<rparr>)"

text \<open>The remote peer confirms the interrupt in flight.\<close>

definition notifyInterrupted :: "ThreadCoordinator \<Rightarrow> ThreadCoordinator" where
  "notifyInterrupted c =
     (if threadState c = Interrupting
      then c\<lparr>threadState := Paused,
             settled := settled c @ settle Fulfilled (interruptWaiters c),
             interruptWaiters := [],
             answered := answered c @ [Interrupt_request]\<rparr>
      else c)"

text \<open>The remote peer rejects the interrupt in flight.\<close>

definition notifyInterruptFailed :: "error \<Rightarrow> ThreadCoordinator \<Rightarrow> ThreadCoordinator" where
  "notifyInterruptFailed err c =
     (if threadState c = Interrupting
      then c\<lparr>threadState := Running,
             settled := settled c @ settle (Failed err) (interruptWaiters c),
             interruptWaiters := [],
             answered := answered c @ [Interrupt_request]\<rparr>
      else c)"

text \<open>
  The remote peer confirms the resume in flight: the interrupts queued behind it are
  sent as one request.
\<close>

definition notifyResumed :: "ThreadCoordinator \<Rightarrow> ThreadCoordinator" where
  "notifyResumed c =
     (if threadState c = Resuming
      then (let c1 = c\<lparr>settled := settled c @ settle Fulfilled (resumeWaiters c),
                         resumeWaiters := [],
                         answered := answered c @ [Resume_request]\<rparr>
            in if queuedInterrupts c1 = []
               then c1\<lparr>threadState := Running\<rparr>
               else c1\<lparr>threadState := Interrupting,
                       interruptWaiters := interruptWaiters c1 @ queuedInterrupts c1,
                       queuedInterrupts := [],
                       wire := wire c1 @ [Interrupt_request]\<rparr>)
      else c)"

text \<open>
  The remote peer rejects the resume in flight: the thread is still paused, which is
  what the queued interrupts asked for.
\<close>

definition notifyResumeFailed :: "error \<Rightarrow> ThreadCoordinator \<Rightarrow> ThreadCoordinator" where
  "notifyResumeFailed err c =
     (if threadState c = Resuming
      then c\<lparr>threadState := Paused,
             settled := settled c @ settle (Failed err) (resumeWaiters c)
                          @ settle Fulfilled (queuedInterrupts c),
             resumeWaiters := [],
             queuedInterrupts := [],
             answered := answered c @ [Resume_request]\<rparr>
      else c)"

datatype coordinator_event =
    Call_interrupt nat
  | Call_resume nat
  | Remote_interrupted
  | Remote_interrupt_failed error
  | Remote_resumed
  | Remote_resume_failed error

fun coordinator_step :: "coordinator_event \<Rightarrow> ThreadCoordinator \<Rightarrow> ThreadCoordinator" where
  "coordinator_step (Call_interrupt caller) c = interrupt caller c"
| "coordinator_step (Call_resume caller) c = resume caller c"
| "coordinator_step Remote_interrupted c = notifyInterrupted c"
| "coordinator_step (Remote_interrupt_failed err) c = notifyInterruptFailed err c"
| "coordinator_step Remote_resumed c = notifyResumed c"
| "coordinator_step (Remote_resume_failed err) c = notifyResumeFailed err c"

definition coordinator_run :: "coordinator_event list \<Rightarrow> ThreadCoordinator \<Rightarrow> ThreadCoordinator" where
  "coordinator_run events c = fold coordinator_step events c"

text \<open>The requests of a kind that were sent and are not yet answered.\<close>

definition in_flight :: "wire_message \<Rightarrow> ThreadCoordinator \<Rightarrow> nat" where
  "in_flight m c = count_list (wire c) m - count_list (answered c) m"

definition coordinator_invariant :: "ThreadCoordinator \<Rightarrow> bool" where
  "coordinator_invariant c =
     (count_list (wire c) Interrupt_request =
        count_list (answered c) Interrupt_request + (if threadState c = Interrupting then 1 else 0) \<and>
      count_list (wire c) Resume_request =
        count_list (answered c) Resume_request + (if threadState c = Resuming then 1 else 0) \<and>
      (threadState c \<noteq> Interrupting \<longrightarrow> interruptWaiters c = []) \<and>
      (threadState c \<noteq> Resuming \<longrightarrow> resumeWaiters c = [] \<and> queuedInterrupts c = []))"

section \<open>Auxiliary definitions and example values\<close>

text \<open>
  What \<^verbatim>\<open>disposePauseLifetimeAdapters\<close> leaves of a thread adapter before the release
  request: the adapters of the release list disposed and out of the index, the three
  lists empty.
\<close>

definition disposed_local :: "ThreadAdapter \<Rightarrow> ThreadAdapter" where
  "disposed_local t =
     (fold dispose_and_delete (pauseLifetimeObjects t) t)
       \<lparr>frames := [], scopes := [], pauseLifetimeObjects := [],
        effects := effects t @ map ObjectGripAdapter_dispose (pauseLifetimeObjects t)
           @ map ScopeAdapter_dispose (scopes t) @ map FrameAdapter_dispose (frames t)\<rparr>"

text \<open>The types the \<^verbatim>\<open>switch\<close> of \<^verbatim>\<open>fromGrip\<close> has a case for.\<close>

definition recognized_grip_type :: "string \<Rightarrow> bool" where
  "recognized_grip_type ty =
     (ty \<in> set [''null'', ''undefined'', ''Infinity'', ''-Infinity'', ''NaN'', ''-0'',
                ''longString'', ''symbol'', ''object''])"

definition is_primitive :: "'n Grip \<Rightarrow> bool" where
  "is_primitive grip = (case grip of ObjectShapedGrip g \<Rightarrow> False | _ \<Rightarrow> True)"

text \<open>The displayed value of a primitive grip.\<close>

definition primitive_rendering :: "('n \<Rightarrow> string) \<Rightarrow> 'n Grip \<Rightarrow> string" where
  "primitive_rendering number_toString grip =
     (case grip of
        BooleanGrip b \<Rightarrow> boolean_toString b
      | NumberGrip n \<Rightarrow> number_toString n
      | StringGrip s \<Rightarrow> [double_quote] @ s @ [double_quote]
      | ObjectShapedGrip g \<Rightarrow> [])"

definition example_grip :: ComplexGrip where
  "example_grip =
     \<lparr>grip_type = ''object'', grip_initial = [], grip_name = [], grip_class = ''Array'',
      grip_actor = ''server1.conn0.obj17''\<rparr>"

definition example_grip2 :: ComplexGrip where
  "example_grip2 =
     \<lparr>grip_type = ''object'', grip_initial = [], grip_name = [], grip_class = ''Object'',
      grip_actor = ''server1.conn0.obj18''\<rparr>"

definition example_unknown_grip :: ComplexGrip where
  "example_unknown_grip =
     \<lparr>grip_type = ''bigint'', grip_initial = [], grip_name = [], grip_class = [],
      grip_actor = []\<rparr>"

definition example_thread_proxy :: ActorProxy where
  "example_thread_proxy = \<lparr>name = ''server1.conn0.thread1'', ident = 1\<rparr>"

definition example_thread_proxy2 :: ActorProxy where
  "example_thread_proxy2 = \<lparr>name = ''server1.conn0.thread1'', ident = 2\<rparr>"

definition example_root_proxy :: ActorProxy where
  "example_root_proxy = \<lparr>name = ''root'', ident = 0\<rparr>"

definition response_of :: "string \<Rightarrow> Response" where
  "response_of sender = \<lparr>response_from = sender, response_body = ''{}''\<rparr>"

definition remote_fails :: "string \<Rightarrow> error + unit" where
  "remote_fails actorName = Inl (Rejected ''noSuchActor'')"

definition remote_one_plus_one :: "string \<Rightarrow> string option \<Rightarrow> error + int Grip option" where
  "remote_one_plus_one expr frameActorName =
     (if expr = ''1+1'' then Inr (Some (NumberGrip 2)) else Inr None)"

text \<open>
  A thread adapter with a pause-lifetime adapter, a thread-lifetime adapter, a scope and
  a frame; one with no pause-lifetime adapter; and one whose adapter was asked for with
  \<^verbatim>\<open>threadLifetime\<close> false and then true.
\<close>

definition example_calls :: "thread_call list" where
  "example_calls =
     [GetOrCreateObjectGripAdapter example_grip False,
      GetOrCreateObjectGripAdapter example_grip2 True,
      RegisterScopeAdapter 4, FramesPush 7]"

definition example_thread :: ThreadAdapter where
  "example_thread = thread_run example_calls new_ThreadAdapter"

definition example_thread_no_pause_grips :: ThreadAdapter where
  "example_thread_no_pause_grips =
     thread_run [GetOrCreateObjectGripAdapter example_grip2 True, RegisterScopeAdapter 4,
                 FramesPush 7] new_ThreadAdapter"

definition example_thread_asked_twice :: ThreadAdapter where
  "example_thread_asked_twice =
     thread_run [GetOrCreateObjectGripAdapter example_grip False,
                 GetOrCreateObjectGripAdapter example_grip True] new_ThreadAdapter"

definition example_registry_calls :: "registry_call list" where
  "example_registry_calls =
     [Register example_root_proxy, Register example_thread_proxy,
      Register example_thread_proxy2, Unregister example_root_proxy]"

definition example_connection :: DebugConnection where
  "example_connection = registry_run example_registry_calls new_DebugConnection"

text \<open>
  Calls in which a proxy is registered before proxies of other names, a name is
  registered twice, and a proxy is unregistered.
\<close>

definition example_console_proxy :: ActorProxy where
  "example_console_proxy = \<lparr>name = ''server1.conn0.console2'', ident = 3\<rparr>"

definition example_routing_calls :: "registry_call list" where
  "example_routing_calls =
     [Register example_root_proxy, Register example_console_proxy,
      Register example_thread_proxy, Register example_thread_proxy2,
      Unregister example_root_proxy]"

definition example_routing_connection :: DebugConnection where
  "example_routing_connection = registry_run example_routing_calls new_DebugConnection"

section \<open>Lemmas on the JavaScript Map\<close>

lemma Map_get_Map_set: "Map_get (Map_set m k v) k' = (if k' = k then Some v else Map_get m k')"
  by (simp add: Map_get_def Map_set_def update_conv')

lemma Map_get_Map_delete: "Map_get (Map_delete m k) k' = (if k' = k then None else Map_get m k')"
  by (simp add: Map_get_def Map_delete_def delete_conv')

lemma Map_get_Some_iff:
  "distinct (map fst m) \<Longrightarrow> Map_get m k = Some v \<longleftrightarrow> (k, v) \<in> set m"
  by (simp add: Map_get_def)

lemma set_Map_set:
  "Map_get m k = None \<Longrightarrow> set (Map_set m k v) = insert (k, v) (set m)"
  unfolding Map_get_def Map_set_def
  by (induction m) (auto split: if_splits)

lemma set_Map_delete: "set (Map_delete m k) = {p \<in> set m. fst p \<noteq> k}"
  by (auto simp: Map_delete_def AList.delete_eq)

lemma distinct_Map_set: "distinct (map fst m) \<Longrightarrow> distinct (map fst (Map_set m k v))"
  by (simp add: Map_set_def distinct_update)

lemma distinct_Map_delete: "distinct (map fst m) \<Longrightarrow> distinct (map fst (Map_delete m k))"
  by (simp add: Map_delete_def distinct_delete)

lemma Map_get_None_iff: "Map_get m k = None \<longleftrightarrow> (\<forall>v. (k, v) \<notin> set m)"
  by (auto simp: Map_get_def map_of_eq_None_iff image_iff)


section \<open>Lemmas on the actor registry\<close>

lemma registry_step_unique:
  "registry_unique c \<Longrightarrow> registry_unique (registry_step x c)"
  by (cases x)
     (simp_all add: registry_unique_def register_def unregister_def Map_set_def Map_delete_def
        distinct_update distinct_delete)

lemma fold_registry_step_unique:
  "registry_unique c \<Longrightarrow> registry_unique (fold registry_step calls c)"
  by (induction calls arbitrary: c) (simp_all add: registry_step_unique)

lemma registry_run_unique: "registry_unique (registry_run calls new_DebugConnection)"
  unfolding registry_run_def
  by (rule fold_registry_step_unique) (simp add: registry_unique_def new_DebugConnection_def)

lemma onMessage_unregistered:
  "Map_get (actors c) (response_from r) = None \<Longrightarrow> onMessage d c r = [Log_error r]"
  by (simp add: onMessage_def Map_has_def Map_get_def)

lemma onMessage_registered:
  "Map_get (actors c) (response_from r) = Some p \<Longrightarrow>
     onMessage d c r = (if d then [Log_debug r] else []) @ [ReceiveResponse p r]"
  by (simp add: onMessage_def Map_has_def Map_get_def)

lemma unregister_removes: "Map_get (actors (unregister a c)) (name a) = None"
  by (simp add: unregister_def Map_get_def Map_delete_def delete_conv')

lemma Map_get_register:
  "Map_get (actors (register a c)) n = (if n = name a then Some a else Map_get (actors c) n)"
  by (simp add: register_def Map_get_Map_set)

lemma Map_get_unregister:
  "Map_get (actors (unregister a c)) n = (if n = name a then None else Map_get (actors c) n)"
  by (simp add: unregister_def Map_get_Map_delete)

lemma registry_run_snoc:
  "registry_run (calls @ [x]) c = registry_step x (registry_run calls c)"
  by (simp add: registry_run_def)

lemma Map_get_registry_run:
  "Map_get (actors (registry_run calls new_DebugConnection)) n = last_registered n calls"
proof (induction calls rule: rev_induct)
  case Nil
  show ?case
    by (simp add: registry_run_def new_DebugConnection_def Map_get_def last_registered_def)
next
  case (snoc x calls)
  then show ?case
    by (cases x)
       (auto simp: registry_run_snoc last_registered_def Map_get_register Map_get_unregister)
qed

lemma onMessage_routed: "onMessage d c r = routed d (Map_get (actors c) (response_from r)) r"
  by (cases "Map_get (actors c) (response_from r)")
     (simp_all add: routed_def onMessage_unregistered onMessage_registered)

lemmas registry_eval =
  registry_run_def register_def unregister_def new_DebugConnection_def Map_get_def Map_set_def
  Map_delete_def AList.delete_eq example_thread_proxy_def example_thread_proxy2_def
  example_root_proxy_def response_of_def example_registry_calls_def example_connection_def
  example_console_proxy_def example_routing_calls_def example_routing_connection_def


section \<open>The invariant of the grip index\<close>

lemma grip_invariant_new: "grip_invariant new_ThreadAdapter"
  by (simp add: grip_invariant_def new_ThreadAdapter_def)

lemma getOrCreate_existing:
  "Map_get (objectGripAdaptersByActorName t) (grip_actor g) = Some r \<Longrightarrow>
     getOrCreateObjectGripAdapter g b t = (r, t)"
  by (simp add: getOrCreateObjectGripAdapter_def)

lemma getOrCreate_new:
  "Map_get (objectGripAdaptersByActorName t) (grip_actor g) = None \<Longrightarrow>
     getOrCreateObjectGripAdapter g b t =
       (length (heap t),
        t\<lparr>heap := heap t @ [new_ObjectGripAdapter g b],
          objectGripAdaptersByActorName :=
            Map_set (objectGripAdaptersByActorName t) (grip_actor g) (length (heap t)),
          pauseLifetimeObjects :=
            (if b then pauseLifetimeObjects t else pauseLifetimeObjects t @ [length (heap t)])\<rparr>)"
  by (simp add: getOrCreateObjectGripAdapter_def Let_def)

lemma grip_invariant_getOrCreate:
  assumes "grip_invariant t"
  shows "grip_invariant (snd (getOrCreateObjectGripAdapter g b t))"
proof (cases "Map_get (objectGripAdaptersByActorName t) (grip_actor g)")
  case (Some r)
  then show ?thesis using assms by (simp add: getOrCreate_existing)
next
  case None
  have notin: "\<And>r. (grip_actor g, r) \<notin> set (objectGripAdaptersByActorName t)"
    using None assms by (simp add: grip_invariant_def Map_get_Some_iff [symmetric])
  show ?thesis
    using assms notin
    unfolding getOrCreate_new [OF None] grip_invariant_def
    by (auto simp: set_Map_set [OF None] distinct_Map_set nth_append new_ObjectGripAdapter_def
        less_Suc_eq)
qed

lemma nth_mark_disposed:
  "xs[r := (xs ! r)\<lparr>disposed := True\<rparr>] ! r' =
     (if r' = r \<and> r < length xs then (xs ! r)\<lparr>disposed := True\<rparr> else xs ! r')"
  by (cases "r < length xs") (auto simp: nth_list_update list_update_beyond)

lemma actor_name_mark_disposed:
  "actor_name (xs[r := (xs ! r)\<lparr>disposed := True\<rparr>] ! r') = actor_name (xs ! r')"
  by (simp add: nth_mark_disposed)

lemma dispose_and_delete_fields:
  "frames (dispose_and_delete r t) = frames t"
  "scopes (dispose_and_delete r t) = scopes t"
  "pauseLifetimeObjects (dispose_and_delete r t) = pauseLifetimeObjects t"
  "effects (dispose_and_delete r t) = effects t @ [ObjectGripAdapter_dispose r]"
  "heap (dispose_and_delete r t) = (heap t)[r := (heap t ! r)\<lparr>disposed := True\<rparr>]"
  "objectGripAdaptersByActorName (dispose_and_delete r t) =
     Map_delete (objectGripAdaptersByActorName t) (actor_name (heap t ! r))"
  by (simp_all add: dispose_and_delete_def dispose_ObjectGripAdapter_def emit_def Let_def
      nth_mark_disposed)

lemma fold_dispose_fields:
  "frames (fold dispose_and_delete rs t) = frames t"
  "scopes (fold dispose_and_delete rs t) = scopes t"
  "pauseLifetimeObjects (fold dispose_and_delete rs t) = pauseLifetimeObjects t"
  "effects (fold dispose_and_delete rs t) = effects t @ map ObjectGripAdapter_dispose rs"
  "length (heap (fold dispose_and_delete rs t)) = length (heap t)"
  by (induction rs arbitrary: t; simp add: dispose_and_delete_fields)+

lemma fold_dispose_heap:
  "heap (fold dispose_and_delete rs t) ! r =
     (if r \<in> set rs \<and> r < length (heap t) then (heap t ! r)\<lparr>disposed := True\<rparr> else heap t ! r)"
proof (induction rs arbitrary: t)
  case Nil
  show ?case by simp
next
  case (Cons a rs)
  show ?case
    by (simp add: Cons.IH dispose_and_delete_fields nth_mark_disposed)
qed

lemma fold_dispose_index:
  "set (objectGripAdaptersByActorName (fold dispose_and_delete rs t)) =
     {p \<in> set (objectGripAdaptersByActorName t). fst p \<notin> (\<lambda>r. actor_name (heap t ! r)) ` set rs}"
proof (induction rs arbitrary: t)
  case Nil
  show ?case by simp
next
  case (Cons a rs)
  show ?case
    by (auto simp: Cons.IH actor_name_mark_disposed dispose_and_delete_fields set_Map_delete)
qed

lemma fold_dispose_distinct:
  "distinct (map fst (objectGripAdaptersByActorName t)) \<Longrightarrow>
     distinct (map fst (objectGripAdaptersByActorName (fold dispose_and_delete rs t)))"
  by (induction rs arbitrary: t) (simp_all add: dispose_and_delete_fields distinct_Map_delete)

lemma fold_emit:
  "fold (\<lambda>x. emit (f x)) xs t = t\<lparr>effects := effects t @ map f xs\<rparr>"
  by (induction xs arbitrary: t) (simp_all add: emit_def)


lemma disposePauseLifetimeAdapters_eq:
  "disposePauseLifetimeAdapters reply t =
     Inr (if pauseLifetimeObjects t = [] then disposed_local t
          else emit (ReleaseMany (map (\<lambda>r. actor_name (heap t ! r)) (pauseLifetimeObjects t)))
                 (disposed_local t))"
  by (cases reply)
     (simp_all add: disposePauseLifetimeAdapters_def Let_def fold_emit fold_dispose_fields
        disposed_local_def emit_def)

lemma disposed_local_fields:
  "heap (disposed_local t) = heap (fold dispose_and_delete (pauseLifetimeObjects t) t)"
  "objectGripAdaptersByActorName (disposed_local t) =
     objectGripAdaptersByActorName (fold dispose_and_delete (pauseLifetimeObjects t) t)"
  "pauseLifetimeObjects (disposed_local t) = []"
  "frames (disposed_local t) = []"
  "scopes (disposed_local t) = []"
  "effects (disposed_local t) =
     effects t @ map ObjectGripAdapter_dispose (pauseLifetimeObjects t)
       @ map ScopeAdapter_dispose (scopes t) @ map FrameAdapter_dispose (frames t)"
  by (simp_all add: disposed_local_def)

lemma index_after_dispose:
  assumes inv: "grip_invariant t"
  shows "(n, r) \<in> set (objectGripAdaptersByActorName (disposed_local t)) \<longleftrightarrow>
         (n, r) \<in> set (objectGripAdaptersByActorName t) \<and> r \<notin> set (pauseLifetimeObjects t)"
proof -
  have dist: "distinct (map fst (objectGripAdaptersByActorName t))"
    using inv by (simp add: grip_invariant_def)
  have pl: "\<And>q. q \<in> set (pauseLifetimeObjects t) \<Longrightarrow>
              (actor_name (heap t ! q), q) \<in> set (objectGripAdaptersByActorName t)"
    using inv by (simp add: grip_invariant_def)
  have ix: "\<And>m q. (m, q) \<in> set (objectGripAdaptersByActorName t) \<Longrightarrow> actor_name (heap t ! q) = m"
    using inv by (auto simp: grip_invariant_def)
  show ?thesis
  proof
    assume a: "(n, r) \<in> set (objectGripAdaptersByActorName (disposed_local t))"
    then have in_t: "(n, r) \<in> set (objectGripAdaptersByActorName t)"
      and notname: "n \<notin> (\<lambda>q. actor_name (heap t ! q)) ` set (pauseLifetimeObjects t)"
      by (simp_all add: disposed_local_fields fold_dispose_index)
    have "r \<notin> set (pauseLifetimeObjects t)"
      using notname ix [OF in_t] by auto
    with in_t show "(n, r) \<in> set (objectGripAdaptersByActorName t) \<and> r \<notin> set (pauseLifetimeObjects t)"
      by simp
  next
    assume b: "(n, r) \<in> set (objectGripAdaptersByActorName t) \<and> r \<notin> set (pauseLifetimeObjects t)"
    have "n \<notin> (\<lambda>q. actor_name (heap t ! q)) ` set (pauseLifetimeObjects t)"
    proof
      assume "n \<in> (\<lambda>q. actor_name (heap t ! q)) ` set (pauseLifetimeObjects t)"
      then obtain q where q: "q \<in> set (pauseLifetimeObjects t)" "n = actor_name (heap t ! q)"
        by auto
      from pl [OF q(1)] q(2) have "(n, q) \<in> set (objectGripAdaptersByActorName t)" by simp
      with b dist have "q = r" by (meson eq_key_imp_eq_value)
      with q(1) b show False by simp
    qed
    with b show "(n, r) \<in> set (objectGripAdaptersByActorName (disposed_local t))"
      by (simp add: disposed_local_fields fold_dispose_index)
  qed
qed

lemma heap_after_dispose:
  "heap (disposed_local t) ! r =
     (if r \<in> set (pauseLifetimeObjects t) \<and> r < length (heap t)
      then (heap t ! r)\<lparr>disposed := True\<rparr> else heap t ! r)"
  "length (heap (disposed_local t)) = length (heap t)"
  by (simp_all add: disposed_local_fields fold_dispose_heap fold_dispose_fields)

lemma grip_invariant_disposed_local:
  assumes inv: "grip_invariant t"
  shows "grip_invariant (disposed_local t)"
proof -
  have dist: "distinct (map fst (objectGripAdaptersByActorName (disposed_local t)))"
    using inv by (simp add: disposed_local_fields fold_dispose_distinct grip_invariant_def)
  show ?thesis
    unfolding grip_invariant_def
    using inv dist
    by (auto simp: index_after_dispose [OF inv] heap_after_dispose disposed_local_fields(3)
        grip_invariant_def)
qed

lemma grip_invariant_emit: "grip_invariant (emit e t) = grip_invariant t"
  by (simp add: grip_invariant_def emit_def)

lemma grip_invariant_step:
  "grip_invariant t \<Longrightarrow> grip_invariant (thread_step x t)"
  by (cases x)
     (simp_all add: grip_invariant_getOrCreate disposePauseLifetimeAdapters_eq
        grip_invariant_emit grip_invariant_disposed_local,
      simp_all add: grip_invariant_def registerScopeAdapter_def frames_push_def)

lemma grip_invariant_fold:
  "grip_invariant t \<Longrightarrow> grip_invariant (fold thread_step calls t)"
  by (induction calls arbitrary: t) (simp_all add: grip_invariant_step)

lemma grip_invariant_run: "grip_invariant (thread_run calls new_ThreadAdapter)"
  by (simp add: thread_run_def grip_invariant_fold grip_invariant_new)

lemma getOrCreate_indexed:
  "getOrCreateObjectGripAdapter g b t = (r, t1) \<Longrightarrow>
     Map_get (objectGripAdaptersByActorName t1) (grip_actor g) = Some r"
  by (cases "Map_get (objectGripAdaptersByActorName t) (grip_actor g)")
     (auto simp: getOrCreate_new getOrCreate_existing Map_get_Map_set)

lemma getOrCreate_heap:
  "r < length (heap t) \<Longrightarrow>
     r < length (heap (snd (getOrCreateObjectGripAdapter g b t))) \<and>
     heap (snd (getOrCreateObjectGripAdapter g b t)) ! r = heap t ! r"
  by (cases "Map_get (objectGripAdaptersByActorName t) (grip_actor g)")
     (auto simp: getOrCreate_new getOrCreate_existing nth_append)

lemma thread_step_heap:
  assumes "r < length (heap t)"
  shows "r < length (heap (thread_step x t)) \<and>
         actor_name (heap (thread_step x t) ! r) = actor_name (heap t ! r) \<and>
         isThreadLifetime (heap (thread_step x t) ! r) = isThreadLifetime (heap t ! r)"
proof (cases x)
  case (GetOrCreateObjectGripAdapter g b)
  then show ?thesis using getOrCreate_heap [OF assms] by simp
next
  case (RegisterScopeAdapter s)
  then show ?thesis using assms by (simp add: registerScopeAdapter_def)
next
  case (FramesPush f)
  then show ?thesis using assms by (simp add: frames_push_def)
next
  case (DisposePauseLifetimeAdapters reply)
  then show ?thesis using assms
    by (simp add: disposePauseLifetimeAdapters_eq emit_def heap_after_dispose)
next
  case (Emit e)
  then show ?thesis using assms by (simp add: emit_def)
qed

lemma thread_fold_heap:
  "r < length (heap t) \<Longrightarrow>
     r < length (heap (fold thread_step xs t)) \<and>
     actor_name (heap (fold thread_step xs t) ! r) = actor_name (heap t ! r) \<and>
     isThreadLifetime (heap (fold thread_step xs t) ! r) = isThreadLifetime (heap t ! r)"
proof (induction xs arbitrary: t)
  case Nil
  then show ?case by simp
next
  case (Cons x xs)
  from thread_step_heap [OF Cons.prems, of x] Cons.IH [of "thread_step x t"]
  show ?case by simp
qed

lemma grip_invariant_unique: "grip_invariant t \<Longrightarrow> live_adapters_unique t"
  unfolding grip_invariant_def live_adapters_unique_def
  by (metis eq_key_imp_eq_value)

lemma grip_invariant_indexed:
  assumes "grip_invariant t" "Map_get (objectGripAdaptersByActorName t) n = Some r"
  shows "r < length (heap t)" "actor_name (heap t ! r) = n" "\<not> disposed (heap t ! r)"
    "r \<in> set (pauseLifetimeObjects t) \<longleftrightarrow> \<not> isThreadLifetime (heap t ! r)"
proof -
  have m: "(n, r) \<in> set (objectGripAdaptersByActorName t)"
    using assms by (simp add: grip_invariant_def Map_get_Some_iff)
  with assms(1) show "r < length (heap t)" "actor_name (heap t ! r) = n" "\<not> disposed (heap t ! r)"
    by (auto simp: grip_invariant_def)
  from m assms(1) show "r \<in> set (pauseLifetimeObjects t) \<longleftrightarrow> \<not> isThreadLifetime (heap t ! r)"
    by (auto simp: grip_invariant_def)
qed

lemma grip_invariant_live:
  assumes "grip_invariant t" "r < length (heap t)" "\<not> disposed (heap t ! r)"
  shows "Map_get (objectGripAdaptersByActorName t) (actor_name (heap t ! r)) = Some r"
  using assms by (simp add: grip_invariant_def Map_get_Some_iff)

lemma release_requests_append:
  "release_requests (xs @ ys) = release_requests xs @ release_requests ys"
  by (induction xs rule: release_requests.induct) simp_all

lemma release_requests_disposes:
  "release_requests (map ObjectGripAdapter_dispose xs) = []"
  "release_requests (map ScopeAdapter_dispose xs) = []"
  "release_requests (map FrameAdapter_dispose xs) = []"
  by (induction xs) simp_all

lemma Promise_all_caught:
  "Promise_all (map (\<lambda>x. catch_undefined (f x)) xs) = Inr (map (\<lambda>x. ()) xs)"
  by (induction xs) (simp_all add: catch_undefined_def split: sum.splits)

lemma fetchAllStackFrames_postAction_swallows:
  "fst (fetchAllStackFrames_postAction extendLifetime frameAdapters t) = Inr ()"
  by (simp add: fetchAllStackFrames_postAction_def Let_def Promise_all_caught)

lemma fetchVariables_postAction_swallows:
  "fst (fetchVariables_postAction extendLifetime b variableAdapters t) = Inr ()"
  by (simp add: fetchVariables_postAction_def Let_def Promise_all_caught)

lemma evaluate_postAction_result:
  "fst (evaluate_postAction extendLifetime va t) =
     (case objectGripAdapter va of
        Some oga \<Rightarrow> extendLifetime (actor_name (heap t ! oga)) | None \<Rightarrow> Inr ())"
  by (simp add: evaluate_postAction_def split: option.splits)

lemmas thread_eval =
  thread_run_def getOrCreateObjectGripAdapter_def disposePauseLifetimeAdapters_def
  dispose_and_delete_def dispose_ObjectGripAdapter_def emit_def registerScopeAdapter_def
  frames_push_def new_ThreadAdapter_def new_ObjectGripAdapter_def Map_get_def Map_set_def
  Map_delete_def AList.delete_eq example_grip_def example_grip2_def Let_def
  example_calls_def example_thread_def example_thread_no_pause_grips_def
  example_thread_asked_twice_def


lemma released_adapters_gone:
  assumes inv: "grip_invariant t"
  shows "\<forall>r \<in> set (pauseLifetimeObjects t).
           disposed (heap (disposed_local t) ! r) \<and>
           Map_get (objectGripAdaptersByActorName (disposed_local t)) (actor_name (heap t ! r))
             = None"
proof
  fix r assume r: "r \<in> set (pauseLifetimeObjects t)"
  have dist: "distinct (map fst (objectGripAdaptersByActorName t))"
    using inv by (simp add: grip_invariant_def)
  have pl: "r < length (heap t) \<and>
            (actor_name (heap t ! r), r) \<in> set (objectGripAdaptersByActorName t)"
    using inv r by (simp add: grip_invariant_def)
  have "\<And>v. (actor_name (heap t ! r), v) \<in> set (objectGripAdaptersByActorName t) \<Longrightarrow> v = r"
    using pl dist by (meson eq_key_imp_eq_value)
  then have "\<forall>v. (actor_name (heap t ! r), v)
               \<notin> set (objectGripAdaptersByActorName (disposed_local t))"
    using r by (auto simp: index_after_dispose [OF inv])
  then show "disposed (heap (disposed_local t) ! r) \<and>
             Map_get (objectGripAdaptersByActorName (disposed_local t)) (actor_name (heap t ! r))
               = None"
    using r pl by (simp add: heap_after_dispose Map_get_None_iff)
qed


section \<open>The invariant of the coordinator\<close>

lemma coordinator_invariant_new: "coordinator_invariant new_ThreadCoordinator"
  by (simp add: coordinator_invariant_def new_ThreadCoordinator_def)

lemma coordinator_invariant_step:
  "coordinator_invariant c \<Longrightarrow> coordinator_invariant (coordinator_step e c)"
  by (cases e; cases "threadState c")
     (auto simp: coordinator_invariant_def interrupt_def resume_def notifyInterrupted_def
        notifyInterruptFailed_def notifyResumed_def notifyResumeFailed_def Let_def)

lemma coordinator_invariant_fold:
  "coordinator_invariant c \<Longrightarrow> coordinator_invariant (fold coordinator_step es c)"
  by (induction es arbitrary: c) (simp_all add: coordinator_invariant_step)

lemma coordinator_invariant_run:
  "coordinator_invariant (coordinator_run es new_ThreadCoordinator)"
  by (simp add: coordinator_run_def coordinator_invariant_fold coordinator_invariant_new)

lemma in_flight_le_1:
  "coordinator_invariant c \<Longrightarrow> in_flight m c \<le> 1"
  by (cases m) (auto simp: coordinator_invariant_def in_flight_def)

lemma two_interrupts:
  assumes "coordinator_invariant c" "threadState c = Running"
  shows "interrupt b (interrupt a c) =
           c\<lparr>threadState := Interrupting, interruptWaiters := [a, b],
             wire := wire c @ [Interrupt_request]\<rparr>"
    and "notifyInterrupted (interrupt b (interrupt a c)) =
           c\<lparr>threadState := Paused, interruptWaiters := [],
             wire := wire c @ [Interrupt_request],
             answered := answered c @ [Interrupt_request],
             settled := settled c @ [(a, Fulfilled), (b, Fulfilled)]\<rparr>"
  using assms
  by (simp_all add: interrupt_def notifyInterrupted_def coordinator_invariant_def settle_def)

lemmas coordinator_eval =
  coordinator_run_def interrupt_def resume_def notifyInterrupted_def notifyInterruptFailed_def
  notifyResumed_def notifyResumeFailed_def new_ThreadCoordinator_def settle_def in_flight_def
  Let_def

section \<open>The actor registry\<close>

text \<open>
  C6. After every sequence of \<^verbatim>\<open>register\<close> and \<^verbatim>\<open>unregister\<close> calls on a new
  connection the registry holds no two proxies under one name, and what it holds under
  a name is what the calls say: the proxy of the latest \<^verbatim>\<open>register\<close> call for that
  name, unless an \<^verbatim>\<open>unregister\<close> call for the name came after it. A message is
  routed by that: a message whose \<^verbatim>\<open>from\<close> names a registered proxy is handed to
  the response handler of that proxy and of no other, and a message whose \<^verbatim>\<open>from\<close>
  names no registered proxy (one never registered, or one removed since) is logged as an
  error and handed to no proxy. A further \<^verbatim>\<open>register\<close> or \<^verbatim>\<open>unregister\<close> of a
  proxy changes the routing of the messages from its name and of no other message.
\<close>

theorem registry_unique_and_routing:
  "registry_unique (registry_run calls new_DebugConnection) \<and>
   Map_get (actors (registry_run calls new_DebugConnection)) n = last_registered n calls \<and>
   onMessage d (registry_run calls new_DebugConnection) r
     = routed d (last_registered (response_from r) calls) r \<and>
   onMessage d (register a (registry_run calls new_DebugConnection)) r
     = (if response_from r = name a
        then (if d then [Log_debug r] else []) @ [ReceiveResponse a r]
        else onMessage d (registry_run calls new_DebugConnection) r) \<and>
   onMessage d (unregister a (registry_run calls new_DebugConnection)) r
     = (if response_from r = name a then [Log_error r]
        else onMessage d (registry_run calls new_DebugConnection) r) \<and>
   (Map_get (actors (registry_run calls new_DebugConnection)) (response_from r1) = None \<longrightarrow>
      onMessage d (registry_run calls new_DebugConnection) r1 = [Log_error r1]) \<and>
   (response_from r2 = name a \<longrightarrow>
      onMessage d (unregister a (registry_run calls new_DebugConnection)) r2 = [Log_error r2]) \<and>
   (Map_get (actors (registry_run calls new_DebugConnection)) (response_from r3) = Some p \<longrightarrow>
      onMessage d (registry_run calls new_DebugConnection) r3 =
        (if d then [Log_debug r3] else []) @ [ReceiveResponse p r3])"
proof -
  let ?c = "registry_run calls new_DebugConnection"
  have routing: "onMessage d ?c r = routed d (last_registered (response_from r) calls) r"
    by (simp add: onMessage_routed Map_get_registry_run)
  have reg: "onMessage d (register a ?c) r
     = (if response_from r = name a
        then (if d then [Log_debug r] else []) @ [ReceiveResponse a r]
        else onMessage d ?c r)"
    by (simp add: onMessage_routed Map_get_register routed_def)
  have unreg: "onMessage d (unregister a ?c) r
     = (if response_from r = name a then [Log_error r] else onMessage d ?c r)"
    by (simp add: onMessage_routed Map_get_unregister routed_def)
  show ?thesis
    using routing reg unreg
    by (simp add: registry_run_unique Map_get_registry_run [symmetric] onMessage_unregistered
        onMessage_registered unregister_removes)
qed

text \<open>
  The root proxy was registered and unregistered, the console proxy registered before
  the thread proxies, the thread proxy registered twice. A message from the root is
  logged; a message from the console, registered before three other calls, goes to the
  console proxy; a message from the thread goes to the proxy registered last. Once the
  thread proxy is unregistered its messages are logged and those of the console are
  still dispatched; once the root is registered again its messages are dispatched.
\<close>

theorem registry_unique_and_routing_witness:
  "registry_unique example_routing_connection \<and>
   last_registered ''root'' example_routing_calls = None \<and>
   last_registered ''server1.conn0.console2'' example_routing_calls = Some example_console_proxy \<and>
   last_registered ''server1.conn0.thread1'' example_routing_calls = Some example_thread_proxy2 \<and>
   Map_get (actors example_routing_connection) ''server1.conn0.console2''
     = Some example_console_proxy \<and>
   onMessage False example_routing_connection (response_of ''root'')
     = [Log_error (response_of ''root'')] \<and>
   onMessage False example_routing_connection (response_of ''server1.conn0.console2'')
     = [ReceiveResponse example_console_proxy (response_of ''server1.conn0.console2'')] \<and>
   onMessage True example_routing_connection (response_of ''server1.conn0.thread1'')
     = [Log_debug (response_of ''server1.conn0.thread1''),
        ReceiveResponse example_thread_proxy2 (response_of ''server1.conn0.thread1'')] \<and>
   onMessage False (unregister example_thread_proxy example_routing_connection)
       (response_of ''server1.conn0.thread1'')
     = [Log_error (response_of ''server1.conn0.thread1'')] \<and>
   onMessage False (unregister example_thread_proxy example_routing_connection)
       (response_of ''server1.conn0.console2'')
     = [ReceiveResponse example_console_proxy (response_of ''server1.conn0.console2'')] \<and>
   onMessage False (register example_root_proxy example_routing_connection) (response_of ''root'')
     = [ReceiveResponse example_root_proxy (response_of ''root'')] \<and>
   onMessage False (register example_root_proxy example_routing_connection)
       (response_of ''server1.conn0.console2'')
     = [ReceiveResponse example_console_proxy (response_of ''server1.conn0.console2'')]"
proof -
  have l1: "last_registered ''root'' example_routing_calls = None"
    and l2: "last_registered ''server1.conn0.console2'' example_routing_calls
               = Some example_console_proxy"
    and l3: "last_registered ''server1.conn0.thread1'' example_routing_calls
               = Some example_thread_proxy2"
    by (simp_all add: last_registered_def example_routing_calls_def example_root_proxy_def
        example_console_proxy_def example_thread_proxy_def example_thread_proxy2_def)
  have n: "response_from (response_of ''root'') = ''root''"
    "response_from (response_of ''server1.conn0.console2'') = ''server1.conn0.console2''"
    "response_from (response_of ''server1.conn0.thread1'') = ''server1.conn0.thread1''"
    "name example_thread_proxy = ''server1.conn0.thread1''"
    "name example_root_proxy = ''root''"
    by (simp_all add: response_of_def example_thread_proxy_def example_root_proxy_def)
  note c = example_routing_connection_def [symmetric]
  have u: "registry_unique example_routing_connection"
    and g: "Map_get (actors example_routing_connection) ''server1.conn0.console2''
              = Some example_console_proxy"
    using registry_unique_and_routing
            [of example_routing_calls "''server1.conn0.console2''" False "response_of ''root''"
                example_root_proxy "response_of ''root''" "response_of ''root''"
                "response_of ''root''" example_root_proxy]
    by (simp_all add: c l2)
  have m1: "onMessage False example_routing_connection (response_of ''root'')
              = [Log_error (response_of ''root'')]"
    and r1: "onMessage False (register example_root_proxy example_routing_connection)
               (response_of ''root'')
              = [ReceiveResponse example_root_proxy (response_of ''root'')]"
    using registry_unique_and_routing
            [of example_routing_calls "''root''" False "response_of ''root''"
                example_root_proxy "response_of ''root''" "response_of ''root''"
                "response_of ''root''" example_root_proxy]
    by (simp_all add: c n l1 routed_def)
  have m2: "onMessage False example_routing_connection (response_of ''server1.conn0.console2'')
              = [ReceiveResponse example_console_proxy (response_of ''server1.conn0.console2'')]"
    and u2: "onMessage False (unregister example_thread_proxy example_routing_connection)
               (response_of ''server1.conn0.console2'')
              = [ReceiveResponse example_console_proxy (response_of ''server1.conn0.console2'')]"
    using registry_unique_and_routing
            [of example_routing_calls "''root''" False "response_of ''server1.conn0.console2''"
                example_thread_proxy "response_of ''root''" "response_of ''server1.conn0.thread1''"
                "response_of ''root''" example_root_proxy]
    by (simp_all add: c n l2 routed_def)
  have r2: "onMessage False (register example_root_proxy example_routing_connection)
               (response_of ''server1.conn0.console2'')
              = [ReceiveResponse example_console_proxy (response_of ''server1.conn0.console2'')]"
    using registry_unique_and_routing
            [of example_routing_calls "''root''" False "response_of ''server1.conn0.console2''"
                example_root_proxy "response_of ''root''" "response_of ''root''"
                "response_of ''root''" example_root_proxy]
    by (simp add: c n l2 routed_def)
  have m3: "onMessage True example_routing_connection (response_of ''server1.conn0.thread1'')
              = [Log_debug (response_of ''server1.conn0.thread1''),
                 ReceiveResponse example_thread_proxy2 (response_of ''server1.conn0.thread1'')]"
    using registry_unique_and_routing
            [of example_routing_calls "''root''" True "response_of ''server1.conn0.thread1''"
                example_thread_proxy "response_of ''root''" "response_of ''server1.conn0.thread1''"
                "response_of ''root''" example_root_proxy]
    by (simp add: c n l3 routed_def)
  have u1: "onMessage False (unregister example_thread_proxy example_routing_connection)
               (response_of ''server1.conn0.thread1'')
              = [Log_error (response_of ''server1.conn0.thread1'')]"
    using registry_unique_and_routing
            [of example_routing_calls "''root''" False "response_of ''server1.conn0.thread1''"
                example_thread_proxy "response_of ''root''" "response_of ''server1.conn0.thread1''"
                "response_of ''root''" example_root_proxy]
    by (simp add: c n)
  from u l1 l2 l3 g m1 m2 m3 u1 u2 r1 r2 show ?thesis by simp
qed

text \<open>
  C10. \<^verbatim>\<open>getOrCreate\<close> does not change the registry itself. For a registered name it
  returns the registered proxy and leaves the connection as it was. For a name that is
  not registered it returns what the factory returns and leaves the connection as the
  factory left it: with a factory that does not register, the name is still
  unregistered afterwards; with a factory that registers its proxy, the registry is
  the one that call of \<^verbatim>\<open>register\<close> made.
\<close>

theorem getOrCreate_leaves_registry:
  "(Map_get (actors c) actorName = Some p \<longrightarrow> getOrCreate actorName createActor c = (p, c)) \<and>
   (Map_get (actors c) actorName = None \<longrightarrow>
      getOrCreate actorName createActor c = createActor c) \<and>
   (Map_get (actors c) actorName = None \<longrightarrow>
      getOrCreate actorName (\<lambda>c'. (q, c')) c = (q, c) \<and>
      Map_get (actors (snd (getOrCreate actorName (\<lambda>c'. (q, c')) c))) actorName = None \<and>
      getOrCreate actorName (\<lambda>c'. (q, register q c')) c = (q, register q c))"
  by (simp add: getOrCreate_def Map_has_def Map_get_def)

theorem getOrCreate_leaves_registry_witness:
  "getOrCreate ''server1.conn0.thread1''
       (\<lambda>c'. (example_root_proxy, register example_root_proxy c')) example_connection
     = (example_thread_proxy2, example_connection) \<and>
   getOrCreate ''root'' (\<lambda>c'. (example_root_proxy, c')) example_connection
     = (example_root_proxy, example_connection) \<and>
   Map_get (actors (snd (getOrCreate ''root'' (\<lambda>c'. (example_root_proxy, c'))
       example_connection))) ''root'' = None \<and>
   getOrCreate ''root'' (\<lambda>c'. (example_root_proxy, register example_root_proxy c'))
       example_connection
     = (example_root_proxy, register example_root_proxy example_connection)"
proof -
  have h1: "Map_get (actors example_connection) ''server1.conn0.thread1''
              = Some example_thread_proxy2"
    by (simp add: registry_eval)
  have h2: "Map_get (actors example_connection) ''root'' = None"
    by (simp add: registry_eval)
  from getOrCreate_leaves_registry
         [of example_connection "''server1.conn0.thread1''" example_thread_proxy2
             "\<lambda>c'. (example_root_proxy, register example_root_proxy c')"] h1
  have a: "getOrCreate ''server1.conn0.thread1''
             (\<lambda>c'. (example_root_proxy, register example_root_proxy c')) example_connection
           = (example_thread_proxy2, example_connection)"
    by simp
  from getOrCreate_leaves_registry [of example_connection "''root''" _ _ example_root_proxy] h2
  have b: "getOrCreate ''root'' (\<lambda>c'. (example_root_proxy, c')) example_connection
             = (example_root_proxy, example_connection) \<and>
      Map_get (actors (snd (getOrCreate ''root'' (\<lambda>c'. (example_root_proxy, c'))
          example_connection))) ''root'' = None \<and>
      getOrCreate ''root'' (\<lambda>c'. (example_root_proxy, register example_root_proxy c'))
          example_connection
        = (example_root_proxy, register example_root_proxy example_connection)"
    by simp
  from a b h2 show ?thesis by simp
qed

section \<open>Object grip adapters of a thread\<close>

text \<open>
  C2. On a thread adapter reached by any sequence of calls, let
  \<^verbatim>\<open>getOrCreateObjectGripAdapter\<close> return an adapter for a grip; after any further
  calls that leave this adapter not disposed, a call for a grip with the same remote
  actor name returns the same adapter (the same reference) and changes nothing. And at
  any time no two adapters that are not disposed have the same remote actor name.
\<close>

theorem getOrCreateObjectGripAdapter_deduplicates:
  assumes c1: "getOrCreateObjectGripAdapter g b (thread_run calls new_ThreadAdapter) = (r, t1)"
      and t2: "t2 = thread_run between t1"
      and live: "\<not> disposed (heap t2 ! r)"
      and same: "grip_actor g' = grip_actor g"
  shows "getOrCreateObjectGripAdapter g' b' t2 = (r, t2) \<and>
         live_adapters_unique (thread_run calls new_ThreadAdapter) \<and> live_adapters_unique t2"
proof -
  let ?t = "thread_run calls new_ThreadAdapter"
  have inv: "grip_invariant ?t" by (rule grip_invariant_run)
  have inv1: "grip_invariant t1"
    using grip_invariant_getOrCreate [OF inv, of g b] c1 by simp
  have inv2: "grip_invariant t2"
    unfolding t2 thread_run_def by (rule grip_invariant_fold [OF inv1])
  have ix1: "Map_get (objectGripAdaptersByActorName t1) (grip_actor g) = Some r"
    by (rule getOrCreate_indexed [OF c1])
  have r1: "r < length (heap t1)" "actor_name (heap t1 ! r) = grip_actor g"
    using grip_invariant_indexed [OF inv1 ix1] by simp_all
  have r2: "r < length (heap t2)" "actor_name (heap t2 ! r) = grip_actor g"
    using thread_fold_heap [OF r1(1), of between] r1(2) by (simp_all add: t2 thread_run_def)
  have "Map_get (objectGripAdaptersByActorName t2) (grip_actor g') = Some r"
    using grip_invariant_live [OF inv2 r2(1) live] r2(2) same by simp
  then have "getOrCreateObjectGripAdapter g' b' t2 = (r, t2)"
    by (rule getOrCreate_existing)
  then show ?thesis
    using grip_invariant_unique [OF inv] grip_invariant_unique [OF inv2] by simp
qed

theorem getOrCreateObjectGripAdapter_deduplicates_witness:
  "getOrCreateObjectGripAdapter example_grip False new_ThreadAdapter
     = (0, thread_run [GetOrCreateObjectGripAdapter example_grip False] new_ThreadAdapter) \<and>
   \<not> disposed (heap example_thread ! 0) \<and>
   getOrCreateObjectGripAdapter example_grip True example_thread = (0, example_thread) \<and>
   live_adapters_unique new_ThreadAdapter \<and> live_adapters_unique example_thread"
proof -
  define t1 where "t1 = thread_run [GetOrCreateObjectGripAdapter example_grip False] new_ThreadAdapter"
  have c1: "getOrCreateObjectGripAdapter example_grip False (thread_run [] new_ThreadAdapter)
              = (0, t1)"
    by (simp add: t1_def thread_eval)
  have t2: "example_thread =
              thread_run [GetOrCreateObjectGripAdapter example_grip2 True, RegisterScopeAdapter 4,
                          FramesPush 7] t1"
    by (simp add: t1_def example_thread_def example_calls_def thread_run_def)
  have live: "\<not> disposed (heap example_thread ! 0)"
    by (simp add: thread_eval)
  from getOrCreateObjectGripAdapter_deduplicates [OF c1 t2 live refl, of True] c1 live
  show ?thesis
    by (simp add: t1_def thread_run_def)
qed

text \<open>
  C1, as the code has it. Let a call of \<^verbatim>\<open>getOrCreateObjectGripAdapter\<close> create
  the adapter of a remote actor name with \<^verbatim>\<open>threadLifetime\<close> \<open>b1\<close>. A later call
  for the same name, made while the adapter is still indexed, returns the same adapter
  and changes nothing, whatever \<^verbatim>\<open>threadLifetime\<close> it passes: the adapter keeps the
  lifetime it was created with. Created with false it stays in the release list (a
  later request with true does not upgrade it); created with true it stays out of the
  release list (a later request with false does not downgrade it).
\<close>

theorem getOrCreateObjectGripAdapter_keeps_lifetime:
  assumes new: "Map_get (objectGripAdaptersByActorName (thread_run calls new_ThreadAdapter))
                  (grip_actor g) = None"
      and c1: "getOrCreateObjectGripAdapter g b1 (thread_run calls new_ThreadAdapter) = (r, t1)"
      and t2: "t2 = thread_run between t1"
      and ix2: "Map_get (objectGripAdaptersByActorName t2) (grip_actor g) = Some r"
      and same: "grip_actor g' = grip_actor g"
  shows "getOrCreateObjectGripAdapter g' b2 t2 = (r, t2) \<and>
         isThreadLifetime (heap t2 ! r) = b1 \<and>
         (r \<in> set (pauseLifetimeObjects t2)) = (\<not> b1)"
proof -
  let ?t = "thread_run calls new_ThreadAdapter"
  have inv: "grip_invariant ?t" by (rule grip_invariant_run)
  have inv1: "grip_invariant t1"
    using grip_invariant_getOrCreate [OF inv, of g b1] c1 by simp
  have inv2: "grip_invariant t2"
    unfolding t2 thread_run_def by (rule grip_invariant_fold [OF inv1])
  have r1: "r < length (heap t1)" "isThreadLifetime (heap t1 ! r) = b1"
    using c1 unfolding getOrCreate_new [OF new]
    by (auto simp: new_ObjectGripAdapter_def)
  have r2: "isThreadLifetime (heap t2 ! r) = b1"
    using thread_fold_heap [OF r1(1), of between] r1(2) by (simp add: t2 thread_run_def)
  have "getOrCreateObjectGripAdapter g' b2 t2 = (r, t2)"
    using ix2 same by (simp add: getOrCreate_existing)
  then show ?thesis
    using r2 grip_invariant_indexed(4) [OF inv2 ix2] by simp
qed

text \<open>
  The first adapter of the example thread was created with \<^verbatim>\<open>threadLifetime\<close> false;
  asked for again with true it is returned as it is, a pause-lifetime adapter of the
  release list.
\<close>

theorem getOrCreateObjectGripAdapter_keeps_lifetime_witness:
  "Map_get (objectGripAdaptersByActorName new_ThreadAdapter) (grip_actor example_grip) = None \<and>
   Map_get (objectGripAdaptersByActorName example_thread) (grip_actor example_grip) = Some 0 \<and>
   getOrCreateObjectGripAdapter example_grip True example_thread = (0, example_thread) \<and>
   isThreadLifetime (heap example_thread ! 0) = False \<and>
   0 \<in> set (pauseLifetimeObjects example_thread)"
proof -
  define t1 where "t1 = thread_run [GetOrCreateObjectGripAdapter example_grip False] new_ThreadAdapter"
  have new: "Map_get (objectGripAdaptersByActorName (thread_run [] new_ThreadAdapter))
               (grip_actor example_grip) = None"
    by (simp add: thread_eval)
  have c1: "getOrCreateObjectGripAdapter example_grip False (thread_run [] new_ThreadAdapter)
              = (0, t1)"
    by (simp add: t1_def thread_eval)
  have t2: "example_thread =
              thread_run [GetOrCreateObjectGripAdapter example_grip2 True, RegisterScopeAdapter 4,
                          FramesPush 7] t1"
    by (simp add: t1_def example_thread_def example_calls_def thread_run_def)
  have ix2: "Map_get (objectGripAdaptersByActorName example_thread) (grip_actor example_grip)
               = Some 0"
    by (simp add: thread_eval)
  from getOrCreateObjectGripAdapter_keeps_lifetime [OF new c1 t2 ix2 refl, of True] new ix2
  show ?thesis
    by (simp add: thread_run_def)
qed

text \<open>
  C1 as the spec states it fails: an adapter asked for with \<^verbatim>\<open>threadLifetime\<close> false
  and then with true is the same adapter, still of pause lifetime and still in the
  release list; the next \<^verbatim>\<open>disposePauseLifetimeAdapters\<close> disposes it, removes it from
  the index and asks the remote peer to release it.
\<close>

theorem getOrCreateObjectGripAdapter_no_upgrade_counterexample:
  "fst (getOrCreateObjectGripAdapter example_grip True
          (thread_run [GetOrCreateObjectGripAdapter example_grip False] new_ThreadAdapter)) = 0 \<and>
   \<not> isThreadLifetime (heap example_thread_asked_twice ! 0) \<and>
   pauseLifetimeObjects example_thread_asked_twice = [0] \<and>
   disposed
     (heap (thread_step (DisposePauseLifetimeAdapters (Inr ())) example_thread_asked_twice) ! 0) \<and>
   Map_get (objectGripAdaptersByActorName
              (thread_step (DisposePauseLifetimeAdapters (Inr ())) example_thread_asked_twice))
     ''server1.conn0.obj17'' = None \<and>
   release_requests
     (effects (thread_step (DisposePauseLifetimeAdapters (Inr ())) example_thread_asked_twice))
     = [[''server1.conn0.obj17'']]"
  by (simp add: thread_eval)

text \<open>
  C3. On a thread adapter reached by any sequence of calls,
  \<^verbatim>\<open>disposePauseLifetimeAdapters\<close> returns, whatever the remote peer answers, and
  afterwards: the release list is empty; every adapter that was in it is disposed and
  its name is no longer indexed; every adapter still indexed is of thread lifetime; and
  every thread-lifetime adapter that was indexed is indexed as before and unchanged.
\<close>

theorem disposePauseLifetimeAdapters_releases:
  assumes t: "t = thread_run calls new_ThreadAdapter"
  shows "\<exists>t'. disposePauseLifetimeAdapters reply t = Inr t' \<and>
           pauseLifetimeObjects t' = [] \<and>
           (\<forall>r \<in> set (pauseLifetimeObjects t).
               disposed (heap t' ! r) \<and>
               Map_get (objectGripAdaptersByActorName t') (actor_name (heap t ! r)) = None) \<and>
           (\<forall>n r. Map_get (objectGripAdaptersByActorName t') n = Some r \<longrightarrow>
               isThreadLifetime (heap t' ! r)) \<and>
           (\<forall>n r. Map_get (objectGripAdaptersByActorName t) n = Some r \<and>
                   isThreadLifetime (heap t ! r) \<longrightarrow>
               Map_get (objectGripAdaptersByActorName t') n = Some r \<and> heap t' ! r = heap t ! r)"
proof -
  have inv: "grip_invariant t" unfolding t by (rule grip_invariant_run)
  define t' where "t' = (if pauseLifetimeObjects t = [] then disposed_local t
          else emit (ReleaseMany (map (\<lambda>r. actor_name (heap t ! r)) (pauseLifetimeObjects t)))
                 (disposed_local t))"
  have f: "heap t' = heap (disposed_local t)"
    "objectGripAdaptersByActorName t' = objectGripAdaptersByActorName (disposed_local t)"
    "pauseLifetimeObjects t' = []"
    by (simp_all add: t'_def emit_def disposed_local_fields)
  have inv': "grip_invariant (disposed_local t)"
    by (rule grip_invariant_disposed_local [OF inv])
  have dist: "distinct (map fst (objectGripAdaptersByActorName t))"
    and dist': "distinct (map fst (objectGripAdaptersByActorName (disposed_local t)))"
    using inv inv' by (simp_all add: grip_invariant_def)
  have a: "\<forall>r \<in> set (pauseLifetimeObjects t).
               disposed (heap t' ! r) \<and>
               Map_get (objectGripAdaptersByActorName t') (actor_name (heap t ! r)) = None"
    using released_adapters_gone [OF inv] by (simp add: f)
  have b: "\<forall>n r. Map_get (objectGripAdaptersByActorName t') n = Some r \<longrightarrow>
               isThreadLifetime (heap t' ! r)"
    using grip_invariant_indexed(4) [OF inv'] by (simp add: f disposed_local_fields(3))
  have c: "\<forall>n r. Map_get (objectGripAdaptersByActorName t) n = Some r \<and>
                   isThreadLifetime (heap t ! r) \<longrightarrow>
               Map_get (objectGripAdaptersByActorName t') n = Some r \<and> heap t' ! r = heap t ! r"
  proof (intro allI impI)
    fix n r
    assume h: "Map_get (objectGripAdaptersByActorName t) n = Some r \<and> isThreadLifetime (heap t ! r)"
    then have notpl: "r \<notin> set (pauseLifetimeObjects t)"
      using grip_invariant_indexed(4) [OF inv, of n r] by simp
    from h have "(n, r) \<in> set (objectGripAdaptersByActorName t)"
      by (simp add: Map_get_Some_iff [OF dist])
    with notpl have "(n, r) \<in> set (objectGripAdaptersByActorName (disposed_local t))"
      by (simp add: index_after_dispose [OF inv])
    then show "Map_get (objectGripAdaptersByActorName t') n = Some r \<and> heap t' ! r = heap t ! r"
      using notpl by (simp add: f Map_get_Some_iff [OF dist'] heap_after_dispose)
  qed
  have "disposePauseLifetimeAdapters reply t = Inr t'"
    by (simp add: disposePauseLifetimeAdapters_eq t'_def)
  with a b c f(3) show ?thesis by blast
qed

text \<open>
  On the example thread, with a release request that the remote peer rejects: the
  pause-lifetime adapter 0 is disposed and gone from the index, the thread-lifetime
  adapter 1 is indexed as before.
\<close>

theorem disposePauseLifetimeAdapters_releases_witness:
  "0 \<in> set (pauseLifetimeObjects example_thread) \<and>
   Map_get (objectGripAdaptersByActorName example_thread) ''server1.conn0.obj18'' = Some 1 \<and>
   isThreadLifetime (heap example_thread ! 1) \<and>
   pauseLifetimeObjects
     (projr (disposePauseLifetimeAdapters (Inl (Rejected ''noSuchActor'')) example_thread)) = [] \<and>
   disposed
     (heap (projr (disposePauseLifetimeAdapters (Inl (Rejected ''noSuchActor'')) example_thread))
        ! 0) \<and>
   Map_get (objectGripAdaptersByActorName
       (projr (disposePauseLifetimeAdapters (Inl (Rejected ''noSuchActor'')) example_thread)))
     ''server1.conn0.obj17'' = None \<and>
   Map_get (objectGripAdaptersByActorName
       (projr (disposePauseLifetimeAdapters (Inl (Rejected ''noSuchActor'')) example_thread)))
     ''server1.conn0.obj18'' = Some 1 \<and>
   heap (projr (disposePauseLifetimeAdapters (Inl (Rejected ''noSuchActor'')) example_thread)) ! 1
     = heap example_thread ! 1"
proof -
  have h1: "0 \<in> set (pauseLifetimeObjects example_thread)"
    and h2: "actor_name (heap example_thread ! 0) = ''server1.conn0.obj17''"
    and h3: "Map_get (objectGripAdaptersByActorName example_thread) ''server1.conn0.obj18'' = Some 1"
    and h4: "isThreadLifetime (heap example_thread ! 1)"
    by (simp_all add: thread_eval)
  from disposePauseLifetimeAdapters_releases
         [of example_thread example_calls "Inl (Rejected ''noSuchActor'')"]
  obtain t' where
    res: "disposePauseLifetimeAdapters (Inl (Rejected ''noSuchActor'')) example_thread = Inr t'"
    and e: "pauseLifetimeObjects t' = []"
    and a: "\<forall>r \<in> set (pauseLifetimeObjects example_thread).
               disposed (heap t' ! r) \<and>
               Map_get (objectGripAdaptersByActorName t') (actor_name (heap example_thread ! r)) = None"
    and c: "\<forall>n r. Map_get (objectGripAdaptersByActorName example_thread) n = Some r \<and>
                   isThreadLifetime (heap example_thread ! r) \<longrightarrow>
               Map_get (objectGripAdaptersByActorName t') n = Some r \<and>
               heap t' ! r = heap example_thread ! r"
    unfolding example_thread_def by blast
  from a h1 h2 have a0: "disposed (heap t' ! 0)"
    "Map_get (objectGripAdaptersByActorName t') ''server1.conn0.obj17'' = None"
    by auto
  from c h3 h4 have c1: "Map_get (objectGripAdaptersByActorName t') ''server1.conn0.obj18'' = Some 1"
    "heap t' ! 1 = heap example_thread ! 1"
    by auto
  from h1 h3 h4 res e a0 c1 show ?thesis by simp
qed

text \<open>
  C4, as the code has it. On a thread adapter reached by any sequence of calls,
  \<^verbatim>\<open>disposePauseLifetimeAdapters\<close> returns without failure whatever the remote peer
  answers to the release request. It first brings the thread adapter to a state \<open>s\<close>
  in which every adapter of the release list is disposed and out of the index, the
  release list, the scopes and the frames are empty, and the disposals were called in
  this order: the adapters of the release list, the scopes, the frames. Then, when the
  release list was not empty, it sends one release request that names the actors of the
  adapters of the release list in their order; when the release list was empty it sends
  no release request.
\<close>

theorem disposePauseLifetimeAdapters_order:
  assumes t: "t = thread_run calls new_ThreadAdapter"
  shows "\<exists>s. (\<forall>r \<in> set (pauseLifetimeObjects t).
                 disposed (heap s ! r) \<and>
                 Map_get (objectGripAdaptersByActorName s) (actor_name (heap t ! r)) = None) \<and>
             pauseLifetimeObjects s = [] \<and> scopes s = [] \<and> frames s = [] \<and>
             effects s =
               effects t @ map ObjectGripAdapter_dispose (pauseLifetimeObjects t)
                 @ map ScopeAdapter_dispose (scopes t) @ map FrameAdapter_dispose (frames t) \<and>
             disposePauseLifetimeAdapters reply t =
               Inr (if pauseLifetimeObjects t = [] then s
                    else emit (ReleaseMany (map (\<lambda>r. actor_name (heap t ! r))
                                              (pauseLifetimeObjects t))) s) \<and>
             release_requests (effects (projr (disposePauseLifetimeAdapters reply t))) =
               release_requests (effects t)
                 @ (if pauseLifetimeObjects t = [] then []
                    else [map (\<lambda>r. actor_name (heap t ! r)) (pauseLifetimeObjects t)])"
proof -
  have inv: "grip_invariant t" unfolding t by (rule grip_invariant_run)
  let ?names = "map (\<lambda>r. actor_name (heap t ! r)) (pauseLifetimeObjects t)"
  let ?s = "disposed_local t"
  have res: "disposePauseLifetimeAdapters reply t =
               Inr (if pauseLifetimeObjects t = [] then ?s else emit (ReleaseMany ?names) ?s)"
    by (rule disposePauseLifetimeAdapters_eq)
  have eff: "effects ?s =
             effects t @ map ObjectGripAdapter_dispose (pauseLifetimeObjects t)
               @ map ScopeAdapter_dispose (scopes t) @ map FrameAdapter_dispose (frames t)"
    by (simp add: disposed_local_fields)
  have rel: "release_requests (effects (projr (disposePauseLifetimeAdapters reply t))) =
             release_requests (effects t)
               @ (if pauseLifetimeObjects t = [] then [] else [?names])"
    unfolding res
    by (simp add: eff emit_def release_requests_append release_requests_disposes)
  have f: "pauseLifetimeObjects ?s = []" "scopes ?s = []" "frames ?s = []"
    by (simp_all add: disposed_local_fields)
  from released_adapters_gone [OF inv] f eff res rel show ?thesis by blast
qed

text \<open>
  On the example thread, with a release request that the remote peer rejects: the
  adapter, the scope and the frame are disposed and then the one request is sent.
\<close>

theorem disposePauseLifetimeAdapters_order_witness:
  "pauseLifetimeObjects example_thread = [0] \<and>
   effects (projr (disposePauseLifetimeAdapters (Inl (Rejected ''noSuchActor'')) example_thread))
     = [ObjectGripAdapter_dispose 0, ScopeAdapter_dispose 4, FrameAdapter_dispose 7,
        ReleaseMany [''server1.conn0.obj17'']] \<and>
   release_requests
     (effects (projr (disposePauseLifetimeAdapters (Inl (Rejected ''noSuchActor'')) example_thread)))
     = [[''server1.conn0.obj17'']] \<and>
   disposed
     (heap (projr (disposePauseLifetimeAdapters (Inl (Rejected ''noSuchActor'')) example_thread))
        ! 0)"
proof -
  have h: "pauseLifetimeObjects example_thread = [0]" "effects example_thread = []"
    "scopes example_thread = [4]" "frames example_thread = [7]"
    "actor_name (heap example_thread ! 0) = ''server1.conn0.obj17''"
    by (simp_all add: thread_eval)
  from disposePauseLifetimeAdapters_order
         [of example_thread example_calls "Inl (Rejected ''noSuchActor'')"]
  obtain s where
    gone: "\<forall>r \<in> set (pauseLifetimeObjects example_thread).
               disposed (heap s ! r) \<and>
               Map_get (objectGripAdaptersByActorName s) (actor_name (heap example_thread ! r)) = None"
    and eff: "effects s =
             effects example_thread @ map ObjectGripAdapter_dispose (pauseLifetimeObjects example_thread)
               @ map ScopeAdapter_dispose (scopes example_thread)
               @ map FrameAdapter_dispose (frames example_thread)"
    and res: "disposePauseLifetimeAdapters (Inl (Rejected ''noSuchActor'')) example_thread =
               Inr (if pauseLifetimeObjects example_thread = [] then s
                    else emit (ReleaseMany (map (\<lambda>r. actor_name (heap example_thread ! r))
                                              (pauseLifetimeObjects example_thread))) s)"
    unfolding example_thread_def by blast
  from gone h(1) have "disposed (heap s ! 0)" by simp
  with res eff h show ?thesis by (simp add: emit_def)
qed

text \<open>
  C4 as the spec states it fails where it has exactly one release request sent at every
  invocation: on a thread adapter with no pause-lifetime adapter the scope and the frame
  are disposed and no release request is sent.
\<close>

theorem disposePauseLifetimeAdapters_no_request_counterexample:
  "pauseLifetimeObjects example_thread_no_pause_grips = [] \<and>
   effects (projr (disposePauseLifetimeAdapters (Inr ()) example_thread_no_pause_grips))
     = [ScopeAdapter_dispose 4, FrameAdapter_dispose 7] \<and>
   release_requests
     (effects (projr (disposePauseLifetimeAdapters (Inr ()) example_thread_no_pause_grips))) = []"
  by (simp add: thread_eval)

section \<open>Failures of the requests that extend a lifetime\<close>

text \<open>
  C5. The post-actions of \<^verbatim>\<open>fetchAllStackFrames\<close> and \<^verbatim>\<open>fetchVariables\<close> catch the
  rejection of every \<^verbatim>\<open>extendLifetime\<close> request (the two lemmas
  \<open>fetchAllStackFrames_postAction_swallows\<close> and \<open>fetchVariables_postAction_swallows\<close>
  above hold for every answer of the remote peer). The post-action of \<^verbatim>\<open>evaluate\<close>
  awaits the request with no handler: for a result that is an object, when the remote
  peer rejects the request, the post-action is rejected with the same error, while the
  other two are fulfilled on the same adapter and the same answer.
\<close>

theorem evaluate_postAction_rejects:
  "fst (evaluate_postAction remote_fails (new_VariableAdapter [] ''Array'' (Some 0))
          example_thread)
     = Inl (Rejected ''noSuchActor'') \<and>
   fst (fetchVariables_postAction remote_fails False [new_VariableAdapter [] ''Array'' (Some 0)]
          example_thread)
     = Inr () \<and>
   fst (fetchAllStackFrames_postAction remote_fails [[0]] example_thread)
     = Inr ()"
  by (simp add: evaluate_postAction_def fetchVariables_postAction_def
      fetchAllStackFrames_postAction_def remote_fails_def new_VariableAdapter_def
      catch_undefined_def List.map_filter_def thread_eval)

section \<open>Variables from grips\<close>

text \<open>
  C8. \<^verbatim>\<open>VariableAdapter.fromGrip\<close> returns a variable adapter for every grip: it has
  no failing branch. The adapter has the name asked for; it has an object grip adapter
  only for a grip of type \<^verbatim>\<open>object\<close>, the one \<^verbatim>\<open>getOrCreateObjectGripAdapter\<close>
  gives; and the invariant of the grip index is kept. For an object-shaped grip whose
  type no case of the \<^verbatim>\<open>switch\<close> names, the displayed value is the type of the grip,
  there is no object grip adapter, and the thread adapter is unchanged but for a
  warning in the log.
\<close>

theorem fromGrip_total:
  "\<exists>va t'. fromGrip number_toString vn grip b t = (va, t') \<and> varname va = vn \<and>
      (objectGripAdapter va \<noteq> None \<longrightarrow>
         (\<exists>g. grip = ObjectShapedGrip g \<and> grip_type g = ''object'' \<and>
              objectGripAdapter va = Some (fst (getOrCreateObjectGripAdapter g b t)))) \<and>
      (grip_invariant t \<longrightarrow> grip_invariant t') \<and>
      (\<forall>g. grip = ObjectShapedGrip g \<and> \<not> recognized_grip_type (grip_type g) \<longrightarrow>
         va_value va = grip_type g \<and> objectGripAdapter va = None \<and>
         t' = emit (Log_warn (''Unexpected object grip of type '' @ grip_type g)) t)"
proof (cases grip)
  case (ObjectShapedGrip g)
  show ?thesis
  proof (cases "grip_type g = ''object''")
    case True
    obtain r t1 where oc: "getOrCreateObjectGripAdapter g b t = (r, t1)"
      by (cases "getOrCreateObjectGripAdapter g b t")
    have inv: "grip_invariant t \<longrightarrow> grip_invariant t1"
      using grip_invariant_getOrCreate [of t g b] oc by simp
    have "fromGrip number_toString vn grip b t = (new_VariableAdapter vn (grip_class g) (Some r), t1)"
      using ObjectShapedGrip True oc by (simp add: fromGrip_def)
    then show ?thesis
      using ObjectShapedGrip True oc inv
      by (simp add: new_VariableAdapter_def recognized_grip_type_def)
  next
    case False
    then show ?thesis
      using ObjectShapedGrip
      by (simp add: fromGrip_def new_VariableAdapter_def recognized_grip_type_def
          grip_invariant_emit)
  qed
qed (simp_all add: fromGrip_def new_VariableAdapter_def)

text \<open>
  A grip of the unknown type \<^verbatim>\<open>bigint\<close> is displayed as its type; an object grip
  gets the adapter of its actor, here the adapter 0 of the example thread.
\<close>

theorem fromGrip_total_witness:
  "\<not> recognized_grip_type (grip_type example_unknown_grip) \<and>
   grip_invariant example_thread \<and>
   fromGrip int_toString ''x'' (ObjectShapedGrip example_unknown_grip) False example_thread
     = (\<lparr>varname = ''x'', va_value = ''bigint'', objectGripAdapter = None\<rparr>,
        emit (Log_warn ''Unexpected object grip of type bigint'') example_thread) \<and>
   fromGrip int_toString ''y'' (ObjectShapedGrip example_grip) True example_thread
     = (\<lparr>varname = ''y'', va_value = ''Array'', objectGripAdapter = Some 0\<rparr>, example_thread) \<and>
   grip_invariant
     (snd (fromGrip int_toString ''y'' (ObjectShapedGrip example_grip) True example_thread))"
proof -
  have h1: "\<not> recognized_grip_type (grip_type example_unknown_grip)"
    by (simp add: recognized_grip_type_def example_unknown_grip_def)
  have h2: "grip_invariant example_thread"
    unfolding example_thread_def by (rule grip_invariant_run)
  from fromGrip_total [of int_toString "''x''" "ObjectShapedGrip example_unknown_grip" False
      example_thread]
  obtain va t' where
    a: "fromGrip int_toString ''x'' (ObjectShapedGrip example_unknown_grip) False example_thread
          = (va, t')"
    and n: "varname va = ''x''"
    and u: "\<forall>g. ObjectShapedGrip example_unknown_grip = ObjectShapedGrip g \<and>
                 \<not> recognized_grip_type (grip_type g) \<longrightarrow>
              va_value va = grip_type g \<and> objectGripAdapter va = None \<and>
              t' = emit (Log_warn (''Unexpected object grip of type '' @ grip_type g)) example_thread"
    by blast
  from u h1 have "va_value va = ''bigint'' \<and> objectGripAdapter va = None \<and>
      t' = emit (Log_warn ''Unexpected object grip of type bigint'') example_thread"
    by (simp add: example_unknown_grip_def)
  with n have va: "va = \<lparr>varname = ''x'', va_value = ''bigint'', objectGripAdapter = None\<rparr>"
    and t': "t' = emit (Log_warn ''Unexpected object grip of type bigint'') example_thread"
    by simp_all
  from fromGrip_total [of int_toString "''y''" "ObjectShapedGrip example_grip" True example_thread]
  obtain vb t'' where
    b: "fromGrip int_toString ''y'' (ObjectShapedGrip example_grip) True example_thread = (vb, t'')"
    and i: "grip_invariant example_thread \<longrightarrow> grip_invariant t''"
    by blast
  have c: "fromGrip int_toString ''y'' (ObjectShapedGrip example_grip) True example_thread
     = (\<lparr>varname = ''y'', va_value = ''Array'', objectGripAdapter = Some 0\<rparr>, example_thread)"
    by (simp add: fromGrip_def new_VariableAdapter_def thread_eval)
  from a va t' b c i h1 h2 show ?thesis by simp
qed

text \<open>
  C9. A primitive grip gives a variable with no object grip adapter, whose displayed
  value is the rendering of the primitive, and leaves the thread adapter unchanged: a
  boolean is \<^verbatim>\<open>true\<close> or \<^verbatim>\<open>false\<close>, a number is what \<^verbatim>\<open>toString\<close> gives (for the
  integer 2 the decimal \<^verbatim>\<open>2\<close>), a string stands between double quotes. So when the
  remote peer answers an evaluation with a primitive grip, \<^verbatim>\<open>evaluate\<close> returns that
  variable, with or without a frame; when it answers \<^verbatim>\<open>1+1\<close> with the number 2, the
  displayed value is \<^verbatim>\<open>2\<close>.
\<close>

theorem primitive_grips_render:
  "fromGrip number_toString vn (BooleanGrip x) b t
     = (\<lparr>varname = vn, va_value = (if x then ''true'' else ''false''), objectGripAdapter = None\<rparr>, t) \<and>
   fromGrip number_toString vn (NumberGrip n) b t
     = (\<lparr>varname = vn, va_value = number_toString n, objectGripAdapter = None\<rparr>, t) \<and>
   fromGrip number_toString vn (StringGrip s) b t
     = (\<lparr>varname = vn, va_value = CHR 0x22 # s @ [CHR 0x22], objectGripAdapter = None\<rparr>, t) \<and>
   int_toString 2 = ''2'' \<and>
   (is_primitive grip \<and> remote_evaluate expr frameActorName = Inr (Some grip) \<longrightarrow>
      evaluate number_toString variablesProviderId remote_evaluate extendLifetime expr
          frameActorName t
        = Inr (\<lparr>variable_name = [],
               variable_value = primitive_rendering number_toString grip,
               variablesReference = None\<rparr>, t)) \<and>
   (remote_evaluate' ''1+1'' frameActorName = Inr (Some (NumberGrip 2)) \<longrightarrow>
      evaluate int_toString variablesProviderId remote_evaluate' extendLifetime ''1+1''
          frameActorName t
        = Inr (\<lparr>variable_name = [], variable_value = ''2'', variablesReference = None\<rparr>, t))"
proof -
  have two: "int_toString 2 = ''2''"
    by (simp add: int_toString_def nat_toString.simps digit_char_def)
  have prim: "\<And>(num :: 'b \<Rightarrow> string) g thl.
      is_primitive g \<Longrightarrow>
      variableFromGrip num (Some g) thl t
        = (new_VariableAdapter [] (primitive_rendering num g) None, t)"
    by (simp add: variableFromGrip_def fromGrip_def is_primitive_def primitive_rendering_def
        split: Grip.splits)
  have ev: "\<And>(num :: 'b \<Rightarrow> string) g rem e.
      is_primitive g \<Longrightarrow> rem e frameActorName = Inr (Some g) \<Longrightarrow>
      evaluate num variablesProviderId rem extendLifetime e frameActorName t
        = Inr (\<lparr>variable_name = [], variable_value = primitive_rendering num g,
               variablesReference = None\<rparr>, t)"
    by (cases frameActorName)
       (simp_all add: evaluate_def ThreadCoordinator_evaluate_def
          ThreadCoordinator_consoleEvaluate_def prim evaluate_postAction_def getVariable_def
          new_VariableAdapter_def)
  have "is_primitive (NumberGrip (2::int))"
    by (simp add: is_primitive_def)
  from ev [OF this, of remote_evaluate' "''1+1''" int_toString]
  have one: "remote_evaluate' ''1+1'' frameActorName = Inr (Some (NumberGrip 2)) \<longrightarrow>
      evaluate int_toString variablesProviderId remote_evaluate' extendLifetime ''1+1''
          frameActorName t
        = Inr (\<lparr>variable_name = [], variable_value = ''2'', variablesReference = None\<rparr>, t)"
    by (simp add: primitive_rendering_def two)
  show ?thesis
    using ev [of grip remote_evaluate expr number_toString] one two
    by (simp add: fromGrip_def new_VariableAdapter_def boolean_toString_def double_quote_def)
qed

theorem primitive_grips_render_witness:
  "is_primitive (StringGrip ''ab'' :: int Grip) \<and>
   remote_one_plus_one ''1+1'' (Some ''server1.conn0.frame3'') = Inr (Some (NumberGrip 2)) \<and>
   evaluate int_toString id (\<lambda>e f. Inr (Some (StringGrip ''ab''))) remote_fails ''x'' None
       example_thread
     = Inr (\<lparr>variable_name = [], variable_value = CHR 0x22 # ''ab'' @ [CHR 0x22],
            variablesReference = None\<rparr>, example_thread) \<and>
   evaluate int_toString id remote_one_plus_one remote_fails ''1+1''
       (Some ''server1.conn0.frame3'') example_thread
     = Inr (\<lparr>variable_name = [], variable_value = ''2'', variablesReference = None\<rparr>,
            example_thread)"
proof -
  have h1: "is_primitive (StringGrip ''ab'' :: int Grip)"
    by (simp add: is_primitive_def)
  have h2: "remote_one_plus_one ''1+1'' (Some ''server1.conn0.frame3'') = Inr (Some (NumberGrip 2))"
    by (simp add: remote_one_plus_one_def)
  from primitive_grips_render
         [of int_toString _ _ _ example_thread _ _ "StringGrip ''ab''"
             "\<lambda>e f. Inr (Some (StringGrip ''ab''))" "''x''" None id remote_fails]
       h1
  have a: "evaluate int_toString id (\<lambda>e f. Inr (Some (StringGrip ''ab''))) remote_fails ''x'' None
       example_thread
     = Inr (\<lparr>variable_name = [], variable_value = CHR 0x22 # ''ab'' @ [CHR 0x22],
            variablesReference = None\<rparr>, example_thread)"
    by (simp add: primitive_rendering_def double_quote_def)
  from primitive_grips_render
         [of int_toString _ _ _ example_thread _ _ "StringGrip ''ab''"
             "\<lambda>e f. Inr (Some (StringGrip ''ab''))" "''x''" "Some ''server1.conn0.frame3''" id
             remote_fails remote_one_plus_one]
       h2
  have b: "evaluate int_toString id remote_one_plus_one remote_fails ''1+1''
       (Some ''server1.conn0.frame3'') example_thread
     = Inr (\<lparr>variable_name = [], variable_value = ''2'', variablesReference = None\<rparr>,
            example_thread)"
    by simp
  from h1 h2 a b show ?thesis by simp
qed

section \<open>Two callers of interrupt\<close>

text \<open>
  C7, on the coordinator as the spec describes it. Let a thread be running after any
  sequence of calls and answers. When two callers call \<^verbatim>\<open>interrupt()\<close> one after the
  other before the remote peer answers, one interrupt request is sent and neither call
  is settled; when the remote peer confirms the interrupt, both calls are fulfilled, each
  once, and no further request was sent. And after any sequence of calls and answers at
  most one interrupt request and at most one resume request are sent and not yet
  answered.
\<close>

theorem interrupt_twice_one_request:
  assumes c: "c = coordinator_run events new_ThreadCoordinator"
      and running: "threadState c = Running"
  shows "wire (interrupt b (interrupt a c)) = wire c @ [Interrupt_request] \<and>
         settled (interrupt b (interrupt a c)) = settled c \<and>
         wire (notifyInterrupted (interrupt b (interrupt a c))) = wire c @ [Interrupt_request] \<and>
         settled (notifyInterrupted (interrupt b (interrupt a c)))
           = settled c @ [(a, Fulfilled), (b, Fulfilled)] \<and>
         in_flight Interrupt_request (coordinator_run events' new_ThreadCoordinator) \<le> 1 \<and>
         in_flight Resume_request (coordinator_run events' new_ThreadCoordinator) \<le> 1"
proof -
  have inv: "coordinator_invariant c"
    unfolding c by (rule coordinator_invariant_run)
  have inv': "coordinator_invariant (coordinator_run events' new_ThreadCoordinator)"
    by (rule coordinator_invariant_run)
  show ?thesis
    using two_interrupts [OF inv running, of b a] in_flight_le_1 [OF inv']
    by simp
qed

text \<open>
  A thread that was interrupted and resumed once is running again; the calls 12 and 13
  then share one interrupt request.
\<close>

theorem interrupt_twice_one_request_witness:
  "threadState (coordinator_run [Call_interrupt 10, Remote_interrupted, Call_resume 11,
                                 Remote_resumed] new_ThreadCoordinator) = Running \<and>
   wire (coordinator_run [Call_interrupt 10, Remote_interrupted, Call_resume 11, Remote_resumed,
                          Call_interrupt 12, Call_interrupt 13] new_ThreadCoordinator)
     = [Interrupt_request, Resume_request, Interrupt_request] \<and>
   settled (coordinator_run [Call_interrupt 10, Remote_interrupted, Call_resume 11, Remote_resumed,
                             Call_interrupt 12, Call_interrupt 13] new_ThreadCoordinator)
     = [(10, Fulfilled), (11, Fulfilled)] \<and>
   settled (coordinator_run [Call_interrupt 10, Remote_interrupted, Call_resume 11, Remote_resumed,
                             Call_interrupt 12, Call_interrupt 13, Remote_interrupted]
              new_ThreadCoordinator)
     = [(10, Fulfilled), (11, Fulfilled), (12, Fulfilled), (13, Fulfilled)] \<and>
   in_flight Interrupt_request
     (coordinator_run [Call_interrupt 10, Remote_interrupted, Call_resume 11, Remote_resumed,
                       Call_interrupt 12, Call_interrupt 13] new_ThreadCoordinator) \<le> 1"
proof -
  define c where "c = coordinator_run [Call_interrupt 10, Remote_interrupted, Call_resume 11,
                                 Remote_resumed] new_ThreadCoordinator"
  have running: "threadState c = Running"
    and w: "wire c = [Interrupt_request, Resume_request]"
    and s: "settled c = [(10, Fulfilled), (11, Fulfilled)]"
    by (simp_all add: c_def coordinator_eval)
  have r1: "coordinator_run [Call_interrupt 10, Remote_interrupted, Call_resume 11, Remote_resumed,
                             Call_interrupt 12, Call_interrupt 13] new_ThreadCoordinator
            = interrupt 13 (interrupt 12 c)"
    by (simp add: c_def coordinator_run_def)
  have r2: "coordinator_run [Call_interrupt 10, Remote_interrupted, Call_resume 11, Remote_resumed,
                             Call_interrupt 12, Call_interrupt 13, Remote_interrupted]
              new_ThreadCoordinator
            = notifyInterrupted (interrupt 13 (interrupt 12 c))"
    by (simp add: c_def coordinator_run_def)
  from interrupt_twice_one_request
         [OF c_def running, of 13 12
            "[Call_interrupt 10, Remote_interrupted, Call_resume 11, Remote_resumed,
              Call_interrupt 12, Call_interrupt 13]"]
  show ?thesis
    using running w s by (simp add: r1 r2 c_def [symmetric])
qed


end
